theory Spec2Isabelle
  imports Complex_Main
begin

section \<open>JavaScript strings and regular expressions\<close>

text \<open>
  JavaScript strings are modelled as \<^typ>\<open>string\<close>, a \<^typ>\<open>char\<close> standing for a UTF-16
  code unit below 256. JavaScript numbers are modelled as \<^typ>\<open>real\<close> where the code
  divides (the running configuration), and as \<^typ>\<open>int\<close> where it only prints and parses
  whole numbers (ports), with the rounding of a double written out. \<open>NaN\<close> and the
  infinities are written out where the code can produce them.
\<close>

text \<open>
  The character classes the two regular expressions of the sources use: \<open>\s\<close>, \<open>.\<close> under
  the \<open>s\<close> flag, \<open>[^...]\<close> and \<open>\d\<close>. Below code unit 256, \<open>\s\<close> is tab, line feed,
  vertical tab, form feed, carriage return, space and the no-break space.
\<close>

datatype CharClass = Whitespace | Dot | NoneOf string | Digit

fun inClass :: "CharClass \<Rightarrow> char \<Rightarrow> bool" where
  "inClass Whitespace c =
     (c \<in> set [CHR 0x09, CHR 0x0A, CHR 0x0B, CHR 0x0C, CHR 0x0D, CHR 0x20, CHR 0xA0])"
| "inClass Dot c = True"
| "inClass (NoneOf cs) c = (c \<notin> set cs)"
| "inClass Digit c = (c \<in> set ''0123456789'')"

text \<open>
  A pattern is a sequence of atoms: a literal, one character of a class, a greedy star
  \<open>C*\<close> or a lazy star \<open>C*?\<close> over a class, the parentheses of a capturing group (never
  nested in the sources), \<open>^\<close> and \<open>$\<close>. \<open>C+\<close> is \<open>C\<close> followed by \<open>C*\<close>.
\<close>

datatype Atom =
  Lit string
  | One CharClass
  | Greedy CharClass
  | Lazy CharClass
  | GroupOpen
  | GroupClose
  | Bos
  | Eos

record MatchState =
  atStart :: bool
  matched :: string
  openGroup :: "string option"
  captures :: "string list"

definition consume :: "string \<Rightarrow> MatchState \<Rightarrow> MatchState" where
  "consume t st =
     st\<lparr> atStart := atStart st \<and> t = [], matched := matched st @ t,
         openGroup := map_option (\<lambda>g. g @ t) (openGroup st) \<rparr>"

text \<open>
  The backtracking matcher of ECMAScript, at one start position: \<open>run p s st\<close> is the
  first way, in priority order, in which \<open>p\<close> matches a prefix of \<open>s\<close>. A greedy star
  first tries one more character, a lazy star first tries to go on.
\<close>

fun run :: "Atom list \<Rightarrow> string \<Rightarrow> MatchState \<Rightarrow> MatchState option" where
  "run [] s st = Some st"
| "run (Lit l # r) s st =
     (if take (length l) s = l then run r (drop (length l) s) (consume l st) else None)"
| "run (One c # r) s st =
     (case s of
        [] \<Rightarrow> None
      | x # xs \<Rightarrow> if inClass c x then run r xs (consume [x] st) else None)"
| "run (Greedy c # r) s st =
     (case s of
        [] \<Rightarrow> run r [] st
      | x # xs \<Rightarrow>
          if inClass c x
          then (case run (Greedy c # r) xs (consume [x] st) of
                  Some res \<Rightarrow> Some res
                | None \<Rightarrow> run r (x # xs) st)
          else run r (x # xs) st)"
| "run (Lazy c # r) s st =
     (case run r s st of
        Some res \<Rightarrow> Some res
      | None \<Rightarrow>
          (case s of
             [] \<Rightarrow> None
           | x # xs \<Rightarrow> if inClass c x then run (Lazy c # r) xs (consume [x] st) else None))"
| "run (GroupOpen # r) s st = run r s (st\<lparr> openGroup := Some [] \<rparr>)"
| "run (GroupClose # r) s st =
     run r s (st\<lparr> openGroup := None,
                    captures := captures st @ [case openGroup st of None \<Rightarrow> [] | Some g \<Rightarrow> g] \<rparr>)"
| "run (Bos # r) s st = (if atStart st then run r s st else None)"
| "run (Eos # r) s st = (if s = [] then run r s st else None)"

text \<open>The start positions, left to right.\<close>

fun search :: "Atom list \<Rightarrow> string \<Rightarrow> bool \<Rightarrow> MatchState option" where
  "search p [] b = run p [] \<lparr> atStart = b, matched = [], openGroup = None, captures = [] \<rparr>"
| "search p (x # xs) b =
     (case run p (x # xs) \<lparr> atStart = b, matched = [], openGroup = None, captures = [] \<rparr> of
        Some st \<Rightarrow> Some st
      | None \<Rightarrow> search p xs False)"

text \<open>\<open>RegExp.prototype.exec\<close>: the match array \<open>[m[0], m[1], ...]\<close>, or \<open>null\<close>.\<close>

definition regexExec :: "Atom list \<Rightarrow> string \<Rightarrow> string list option" where
  "regexExec p s = map_option (\<lambda>st. matched st # captures st) (search p s True)"

text \<open>\<open>/\s/.test(s)\<close>.\<close>

definition hasWhitespace :: "string \<Rightarrow> bool" where
  "hasWhitespace s = (regexExec [One Whitespace] s \<noteq> None)"

text \<open>\<open>String.prototype.includes\<close>.\<close>

fun jsIncludes :: "string \<Rightarrow> string \<Rightarrow> bool" where
  "jsIncludes [] sub = (sub = [])"
| "jsIncludes (x # xs) sub = (take (length sub) (x # xs) = sub \<or> jsIncludes xs sub)"

section \<open>The Minikube lifecycle controller (src/k8s-engine/minikube.js)\<close>

subsection \<open>K8s.State (src/k8s-engine/k8s.ts) and the controller's fields\<close>

datatype State = STOPPED | STARTING | STARTED | STOPPING | ERROR

datatype OpType = OpStart | OpStop | OpDel | OpReset

text \<open>\<open>this.cfg\<close>: the fields of \<open>Settings['kubernetes']\<close> the controller reads.\<close>

record KubernetesSettings =
  cfg_version :: string
  memoryInGB :: real
  numberCPUs :: real

text \<open>The \<open>MinikubeConfiguration\<close> typedef of the source (the parsed \<open>config.json\<close>).\<close>

record MinikubeConfiguration =
  CPUs :: real
  Memory :: real
  DiskSize :: real
  Driver :: string
  KubernetesVersion :: string
  ContainerRuntime :: string
  Bootstrapper :: string

text \<open>
  One argument of a spawned command line. The template strings
  \<open>--kubernetes-version=${version}\<close>, \<open>--memory=${memoryInGB}g\<close> and \<open>--cpus=${numCPUs}\<close>
  keep their parameter instead of its rendering. The last argument of \<open>exec\<close> is the
  option object \<open>{ stdio: 'inherit' }\<close>, which \<open>exec\<close> pops off the argument list.
\<close>

datatype Arg =
  A string
  | ArgKubernetesVersion "string option"
    \<comment> \<open>\<open>this.version\<close>, a getter of \<open>this.#version\<close>\<close>
  | ArgMemory real
  | ArgCpus real

text \<open>What a rejected promise or a thrown exception carries.\<close>

datatype Failure =
  UnstoppedCluster State
    \<comment> \<open>\<open>new Error(`Attempting to start unstopped Kubernetes cluster: ${state}`)\<close>\<close>
  | ProcessFailure string "int option" string
    \<comment> \<open>\<open>{ context, errorCode, message }\<close>\<close>
  | RejectedOne
    \<comment> \<open>\<open>reject(1)\<close> of \<open>del\<close>\<close>
  | ResetFailure string string "string option"
    \<comment> \<open>\<open>{ ...error, context: 'resetting minikube', message: error.stderr }\<close> for the
        \<open>{ stdout, stderr, signal }\<close> that \<open>exec\<close> rejects with\<close>
  | ResetTypeError
    \<comment> \<open>the same object built from a \<open>TypeError\<close>: no \<open>stderr\<close>, no own fields\<close>
  | SudoFailure
    \<comment> \<open>the rejection of \<open>sudo-prompt\<close> in \<open>startAgain\<close>\<close>
  | ReadFailure
    \<comment> \<open>a \<open>readFile\<close> or \<open>JSON.parse\<close> exception other than \<open>ENOENT\<close>\<close>

text \<open>What the controller does to the outside, in the order it does it.\<close>

datatype Effect =
  StateChanged State
    \<comment> \<open>\<open>this.emit('state-changed', state)\<close>\<close>
  | ClientDestroyed nat
    \<comment> \<open>\<open>client.destroy()\<close>\<close>
  | ClientCreated nat
    \<comment> \<open>\<open>new K8s.Client()\<close>\<close>
  | Spawned nat "Arg list"
    \<comment> \<open>\<open>spawn(resources.executable('minikube'), args, opts)\<close>\<close>
  | Killed "nat option"
    \<comment> \<open>\<open>this.#current.kill('SIGINT')\<close>\<close>

record Minikube =
  internalState :: State
  client :: "nat option"
  current :: "nat option"
  currentType :: "OpType option"
  version :: "string option"
  cfg :: KubernetesSettings
  nextClient :: nat
  nextProcess :: nat
  effects :: "Effect list"

definition newMinikube :: "KubernetesSettings \<Rightarrow> Minikube" where
  "newMinikube c =
     \<lparr> internalState = STOPPED, client = None, current = None, currentType = None,
       version = None, cfg = c, nextClient = 0, nextProcess = 0, effects = [] \<rparr>"

definition emit :: "Effect \<Rightarrow> Minikube \<Rightarrow> Minikube" where
  "emit e m = m\<lparr> effects := effects m @ [e] \<rparr>"

text \<open>\<open>this.#client?.destroy()\<close>: the reference is kept.\<close>

definition destroyClient :: "Minikube \<Rightarrow> Minikube" where
  "destroyClient m = (case client m of None \<Rightarrow> m | Some c \<Rightarrow> emit (ClientDestroyed c) m)"

text \<open>The setter \<open>set #state(value)\<close>.\<close>

definition setState :: "State \<Rightarrow> Minikube \<Rightarrow> Minikube" where
  "setState v m =
     (let m1 = emit (StateChanged v) (m\<lparr> internalState := v \<rparr>)
      in if v = STOPPING \<or> v = STOPPED \<or> v = ERROR
         then (destroyClient m1)\<lparr> client := None \<rparr>
         else m1)"

text \<open>\<open>this.#client = new K8s.Client()\<close>.\<close>

definition createClient :: "Minikube \<Rightarrow> Minikube" where
  "createClient m =
     emit (ClientCreated (nextClient m))
       (m\<lparr> client := Some (nextClient m), nextClient := Suc (nextClient m) \<rparr>)"

text \<open>\<open>const bat = spawn(...); this.#current = bat\<close>.\<close>

definition spawn :: "Arg list \<Rightarrow> Minikube \<Rightarrow> Minikube" where
  "spawn args m =
     emit (Spawned (nextProcess m) args)
       (m\<lparr> current := Some (nextProcess m), nextProcess := Suc (nextProcess m) \<rparr>)"

definition clear :: "Minikube \<Rightarrow> Minikube" where
  "clear m = m\<lparr> current := None, currentType := None \<rparr>"

subsection \<open>requiresRestartReasons\<close>

text \<open>What reading and parsing \<open>config.json\<close> gives.\<close>

datatype ConfigFile =
  Enoent
  | Unreadable
  | ParsedNull
  | Parsed MinikubeConfiguration

text \<open>
  The getter \<open>#minikubeConfig\<close>. \<open>K8s.State\<close> has no member \<open>READY\<close>, so
  \<open>[K8s.State.STARTED, K8s.State.READY]\<close> is \<open>[2, undefined]\<close> and only \<open>STARTED\<close> passes.
\<close>

definition minikubeConfig :: "Minikube \<Rightarrow> ConfigFile \<Rightarrow> Failure + MinikubeConfiguration option" where
  "minikubeConfig m f =
     (if internalState m \<noteq> STARTED then Inr None
      else case f of
        Enoent \<Rightarrow> Inr None
      | Unreadable \<Rightarrow> Inl ReadFailure
      | ParsedNull \<Rightarrow> Inr None
      | Parsed c \<Rightarrow> Inr (Some c))"

datatype JsValue = JNum real | JStr string

text \<open>A JavaScript object with string keys, in insertion order.\<close>

type_synonym 'v JsObject = "(string \<times> 'v) list"

fun assign :: "string \<Rightarrow> 'v \<Rightarrow> 'v JsObject \<Rightarrow> 'v JsObject" where
  "assign k v [] = [(k, v)]"
| "assign k v ((k', v') # kvs) = (if k' = k then (k, v) # kvs else (k', v') # assign k v kvs)"

text \<open>\<open>results[key] = actual === desired ? [] : [actual, desired]\<close>.\<close>

definition cmp :: "string \<Rightarrow> JsValue \<Rightarrow> JsValue \<Rightarrow> JsValue list JsObject \<Rightarrow> JsValue list JsObject" where
  "cmp k actual desired results =
     assign k (if actual = desired then [] else [actual, desired]) results"

definition requiresRestartReasons :: "Minikube \<Rightarrow> ConfigFile \<Rightarrow> Failure + JsValue list JsObject" where
  "requiresRestartReasons m f =
     (case minikubeConfig m f of
        Inl e \<Rightarrow> Inl e
      | Inr None \<Rightarrow> Inr []
      | Inr (Some config) \<Rightarrow>
          Inr (cmp ''bootstrapper'' (JStr (Bootstrapper config)) (JStr ''k3s'')
                (cmp ''memory'' (JNum (Memory config / 1024)) (JNum (memoryInGB (cfg m)))
                  (cmp ''cpu'' (JNum (CPUs config)) (JNum (numberCPUs (cfg m))) []))))"

subsection \<open>customizeMinikubeMessage\<close>

definition quoteIfNecessary :: "string \<Rightarrow> string" where
  "quoteIfNecessary s = (if hasWhitespace s then [CHR 0x22] @ s @ [CHR 0x22] else s)"

text \<open>The regular expression \<open>p\<close> of \<open>customizeMinikubeMessage\<close> (flag \<open>s\<close>), atom by atom.\<close>

definition downgradePattern :: "Atom list" where
  "downgradePattern =
     [Lit ''X Exiting due to K8S_DOWNGRADE_UNSUPPORTED:'', Greedy Whitespace,
      GroupOpen, Lit ''Unable to safely downgrade '', Lazy Dot, GroupClose,
      One Whitespace, Greedy Whitespace, Lit ''*'', Greedy Whitespace,
      Lit ''Suggestion:'', One Whitespace, Greedy Whitespace, Lit ''1)'', Greedy Whitespace,
      GroupOpen, Lit ''Recreate the cluster with'', Lazy Dot, Lit '' by running:'', GroupClose,
      One Whitespace, Greedy Whitespace,
      GroupOpen, Lit ''minikube delete -p rancher-desktop'', GroupClose,
      One Whitespace, Greedy Whitespace,
      GroupOpen, Lit ''minikube start -p rancher-desktop --kubernetes-version='', Lazy Dot,
      GroupClose,
      Lit [CHR 0x0A]]"

text \<open>The template literal \<open>fixedMessage\<close>, for the match array \<open>m\<close>; \<open>home\<close> is \<open>paths.data()\<close>.\<close>

definition fixedMessage :: "string \<Rightarrow> string list \<Rightarrow> string" where
  "fixedMessage home m =
     m ! 1 @ [CHR 0x0A, CHR 0x0A] @ ''Suggested fix:'' @ [CHR 0x0A, CHR 0x0A] @
     m ! 2 @ [CHR 0x0A, CHR 0x0A] @ ''export MINIKUBE_HOME='' @ quoteIfNecessary home @
     [CHR 0x0A, CHR 0x0A] @ m ! 3 @ [CHR 0x0A, CHR 0x0A] @
     m ! 4 @ '' --driver=hyperkit'' @ [CHR 0x0A]"

definition customizeMinikubeMessage :: "string \<Rightarrow> string \<Rightarrow> string" where
  "customizeMinikubeMessage home errorMessage =
     (case regexExec downgradePattern errorMessage of
        Some m \<Rightarrow> fixedMessage home m
      | None \<Rightarrow> errorMessage)"

subsection \<open>start\<close>

text \<open>
  An \<open>async\<close> method runs in pieces: from the call to its first \<open>await\<close>, and from one
  event it waits for to the next. Each piece is a function on the controller. The wait
  loop \<open>while (this.#currentType !== undefined) await sleep(500)\<close> is the guard of the
  piece that follows it (see \<open>step\<close> below).
\<close>

definition startArgs :: "Minikube \<Rightarrow> Arg list" where
  "startArgs m =
     map A [''start'', ''-b'', ''k3s'', ''-p'', ''rancher-desktop'', ''--driver'', ''hyperkit'',
            ''--container-runtime'', ''containerd'', ''--interactive=false''] @
     [ArgKubernetesVersion (version m)] @
     (if memoryInGB (cfg m) \<noteq> 2 then [ArgMemory (memoryInGB (cfg m))] else []) @
     (if numberCPUs (cfg m) \<noteq> 2 then [ArgCpus (numberCPUs (cfg m))] else [])"

text \<open>
  Lines 204 to 246 and 300 to 306: \<open>this.#currentType = 'start'\<close> and the synchronous part
  of the promise executor. The first component is the error \<open>reject\<close> was called with at
  line 208, if it was; the executor does not return there and goes on to spawn.
\<close>

definition startCall :: "bool \<Rightarrow> Minikube \<Rightarrow> Failure option \<times> Minikube" where
  "startCall nested m =
     (let m0 = m\<lparr> currentType := Some OpStart \<rparr>;
          rejected = (if \<not> nested \<and> internalState m0 \<noteq> STOPPED
                      then Some (UnstoppedCluster (internalState m0)) else None);
          m1 = setState STARTING m0;
          m2 = m1\<lparr> version := Some (cfg_version (cfg m1)) \<rparr>;
          m3 = spawn (startArgs m2) m2
      in (rejected, m3))"

text \<open>The \<open>data\<close> handlers of the child's \<open>stdout\<close> and \<open>stderr\<close>.\<close>

definition onStdout :: "string \<Rightarrow> bool \<Rightarrow> bool" where
  "onStdout chunk permsMsg =
     (if jsIncludes chunk ''The 'hyperkit' driver requires elevated permissions.''
      then True else permsMsg)"

definition onStderr :: "string \<Rightarrow> string \<Rightarrow> string" where
  "onStderr chunk errorMessage = errorMessage @ chunk"

text \<open>
  The \<open>exit\<close> handler of \<open>start\<close>, lines 266 to 298, for the exit code (\<open>null\<close> when a
  signal ended the child) and the signal (\<open>null\<close> otherwise). \<open>Escalate\<close> is the branch
  that awaits \<open>startAgain\<close>; \<open>this.clear()\<close> of the \<open>finally\<close> block then runs later.
\<close>

datatype Outcome = Escalate | Resolved | Rejected Failure

definition startExit ::
    "string \<Rightarrow> bool \<Rightarrow> bool \<Rightarrow> string \<Rightarrow> int option \<Rightarrow> string option \<Rightarrow> Minikube \<Rightarrow> Outcome \<times> Minikube" where
  "startExit home nested permsMsg errorMessage code sig m =
     (if code = Some 80 \<and> permsMsg \<and> \<not> nested then (Escalate, m)
      else if code = Some 0 then (Resolved, clear (setState STARTED m))
      else if sig = Some ''SIGINT'' then (Resolved, clear (setState STOPPED m))
      else (Rejected (ProcessFailure ''starting minikube'' code
                        (customizeMinikubeMessage home errorMessage)),
            clear (setState ERROR m)))"

text \<open>Lines 309 to 318, reached when the awaited promise was resolved.\<close>

definition startFinish :: "Minikube \<Rightarrow> Minikube" where
  "startFinish m =
     (if internalState m = STOPPED then m else createClient (setState STARTED m))"

text \<open>
  A promise keeps its first settlement: \<open>settle early later\<close> is what the promise of
  \<open>start\<close> holds when line 208 rejected it with \<open>early\<close> (if at all) and the \<open>exit\<close>
  handler later resolved (\<open>None\<close>) or rejected it.
\<close>

definition settle :: "Failure option \<Rightarrow> Failure option \<Rightarrow> Failure option" where
  "settle early later = (case early of Some f \<Rightarrow> Some f | None \<Rightarrow> later)"

text \<open>The rest of \<open>start\<close> after its \<open>await\<close>: it throws what the promise was rejected with.\<close>

definition startAfterAwait :: "Failure option \<Rightarrow> Minikube \<Rightarrow> Failure option \<times> Minikube" where
  "startAfterAwait promise m =
     (case promise of Some f \<Rightarrow> (Some f, m) | None \<Rightarrow> (None, startFinish m))"

text \<open>One run of a child process, as the handlers see it.\<close>

record ProcessRun =
  stdoutData :: "string list"
  stderrData :: "string list"
  exitCode :: "int option"
  exitSignal :: "string option"

definition permsMsgOf :: "ProcessRun \<Rightarrow> bool" where
  "permsMsgOf r = foldl (\<lambda>p chunk. onStdout chunk p) False (stdoutData r)"

definition errorMessageOf :: "ProcessRun \<Rightarrow> string" where
  "errorMessageOf r = foldl (\<lambda>e chunk. onStderr chunk e) [] (stderrData r)"

text \<open>
  \<open>start(true)\<close> as \<open>startAgain\<close> calls it: a nested call does not wait, is not checked
  against the state and does not escalate.
\<close>

definition startNested :: "string \<Rightarrow> ProcessRun \<Rightarrow> Minikube \<Rightarrow> Failure option \<times> Minikube" where
  "startNested home r m =
     (let (early, m1) = startCall True m;
          (out, m2) = startExit home True (permsMsgOf r) (errorMessageOf r)
                        (exitCode r) (exitSignal r) m1
      in startAfterAwait (settle early (case out of Rejected f \<Rightarrow> Some f | _ \<Rightarrow> None)) m2)"

text \<open>
  \<open>start()\<close> from the moment it holds the lock to its end, for the run \<open>r\<close> of the
  child it spawns. \<open>again\<close> says how \<open>startAgain\<close> goes if the handler escalates:
  \<open>None\<close> when the \<open>sudo\<close> prompt fails, else the run of the child of the nested call.
\<close>

definition start :: "string \<Rightarrow> ProcessRun \<Rightarrow> ProcessRun option \<Rightarrow> Minikube \<Rightarrow> Failure option \<times> Minikube" where
  "start home r again m =
     (let (early, m1) = startCall False m;
          (out, m2) = startExit home False (permsMsgOf r) (errorMessageOf r)
                        (exitCode r) (exitSignal r) m1
      in case out of
           Resolved \<Rightarrow> startAfterAwait (settle early None) m2
         | Rejected f \<Rightarrow> startAfterAwait (settle early (Some f)) m2
         | Escalate \<Rightarrow>
             (case again of
                None \<Rightarrow> startAfterAwait (settle early (Some SudoFailure)) (clear m2)
              | Some r' \<Rightarrow>
                  (let (inner, m3) = startNested home r' m2
                   in startAfterAwait (settle early inner) (clear m3))))"

subsection \<open>stop, del and reset\<close>

text \<open>
  \<open>stop\<close> once the lock is free: the return at line 331, or lines 334 to 355. The
  second component says whether a child was spawned.
\<close>

definition stopCall :: "Minikube \<Rightarrow> Minikube \<times> bool" where
  "stopCall m =
     (if internalState m = STOPPED then (m, False)
      else (spawn (map A [''stop'', ''-p'', ''rancher-desktop''])
              (setState STOPPING (m\<lparr> currentType := Some OpStop \<rparr>)), True))"

definition stopExit :: "string \<Rightarrow> int option \<Rightarrow> Minikube \<Rightarrow> Failure option \<times> Minikube" where
  "stopExit errorMessage code m =
     (let m1 = clear m
      in if code = Some 0 \<or> code = None then (None, setState STOPPED m1)
         else (Some (ProcessFailure ''stopping minikube'' code errorMessage),
               setState ERROR m1))"

text \<open>
  \<open>del\<close> once the lock is free, lines 385 to 405. As in \<open>start\<close>, the executor goes on
  after \<open>reject(1)\<close>.
\<close>

definition delCall :: "Minikube \<Rightarrow> Failure option \<times> Minikube" where
  "delCall m =
     (let m0 = m\<lparr> currentType := Some OpDel \<rparr>;
          rejected = (if internalState m0 \<noteq> STOPPED then Some RejectedOne else None);
          m1 = spawn (map A [''delete'', ''-p'', ''rancher-desktop'']) m0
      in (rejected, m1))"

definition delExit :: "string \<Rightarrow> int option \<Rightarrow> Minikube \<Rightarrow> Failure option \<times> Minikube" where
  "delExit errorMessage code m =
     (let m1 = clear m
      in if code = Some 0 then (None, m1)
         else (Some (ProcessFailure ''deleting minikube'' code errorMessage), m1))"

text \<open>The four commands of \<open>reset\<close>, each run as \<open>exec('ssh', '--', 'sudo', ...)\<close>.\<close>

definition resetCommands :: "string list list" where
  "resetCommands =
     [[''systemctl'', ''stop'', ''kubelet.service''],
      [''rm'', ''-rf'', ''/var/lib/k3s/server/db''],
      [''systemctl'', ''start'', ''kubelet.service''],
      [''systemctl'', ''is-active'', ''--wait'', ''kubelet.service'']]"

definition exec :: "string list \<Rightarrow> Minikube \<Rightarrow> Minikube" where
  "exec args m = spawn (map A ([''ssh'', ''--'', ''sudo''] @ args)) m"

text \<open>
  How one \<open>exec\<close> ends. With \<open>{ stdio: 'inherit' }\<close> Node gives the child no \<open>stdout\<close>
  pipe, so \<open>child.stdout.on\<close> throws inside the executor and the promise is rejected with
  a \<open>TypeError\<close> as soon as the child is spawned (\<open>ExecThrows\<close>); the model also keeps the
  \<open>exit\<close> handler of \<open>exec\<close>, with what the child wrote, its code and its signal.
\<close>

datatype ExecEnd = ExecThrows | ExecExit string string "int option" "string option"

definition execFailure :: "ExecEnd \<Rightarrow> Failure option" where
  "execFailure e =
     (case e of
        ExecThrows \<Rightarrow> Some ResetTypeError
      | ExecExit out err code sig \<Rightarrow>
          if code = Some 0 then None else Some (ResetFailure out err sig))"

text \<open>\<open>reset\<close> once the lock is free: the return at line 440, or lines 442 to 449.\<close>

definition resetCall :: "Minikube \<Rightarrow> Minikube \<times> bool" where
  "resetCall m =
     (if internalState m \<noteq> STARTED then (m, False)
      else (exec (resetCommands ! 0)
              (destroyClient (setState STARTING (m\<lparr> currentType := Some OpReset \<rparr>))), True))"

text \<open>The \<open>catch\<close> and \<open>finally\<close> blocks of \<open>reset\<close>.\<close>

definition resetCatch :: "Minikube \<Rightarrow> Minikube" where
  "resetCatch m = clear (setState ERROR m)"

text \<open>Lines 453 to 457 and the \<open>finally\<close> block, after the fourth \<open>exec\<close> succeeded.\<close>

definition resetFinish :: "Minikube \<Rightarrow> Minikube" where
  "resetFinish m =
     clear (createClient (if internalState m = STARTING then setState STARTED m else m))"

text \<open>
  What \<open>reset\<close> does when the \<open>exec\<close> of command \<open>k\<close> ends with \<open>e\<close>: the next command,
  the end of the \<open>try\<close> block, or the \<open>catch\<close> block. The result is the new controller,
  whether \<open>reset\<close> goes on waiting, and what it throws.
\<close>

definition resetAfterExec :: "nat \<Rightarrow> ExecEnd \<Rightarrow> Minikube \<Rightarrow> Minikube \<times> bool \<times> Failure option" where
  "resetAfterExec k e m =
     (case execFailure e of
        Some f \<Rightarrow> (resetCatch m, False, Some f)
      | None \<Rightarrow>
          if Suc k < length resetCommands then (exec (resetCommands ! Suc k) m, True, None)
          else (resetFinish m, False, None))"

text \<open>\<open>#onSettingsChanged\<close>.\<close>

definition onSettingsChanged :: "KubernetesSettings \<Rightarrow> Minikube \<Rightarrow> Minikube" where
  "onSettingsChanged k m = m\<lparr> cfg := k \<rparr>"

section \<open>The controller as a transition system\<close>

text \<open>
  JavaScript runs one piece of code at a time. A state of the system is the controller
  together with what the operation in flight waits for; a step runs one piece: a call
  that finds the lock free, or the handler of one event. A call that finds the lock held
  polls \<open>#currentType\<close> every 500 ms and takes no step until it finds it free. The
  continuation of an \<open>await\<close> runs before any timer or process event, so no call starts
  in the phases \<open>StartCont\<close> and \<open>StartNestedCont\<close>. The listeners of \<open>state-changed\<close>
  are taken not to call the controller back while the event is emitted: their effect is
  the entry \<open>StateChanged\<close> of the trace.
\<close>

datatype Phase =
  Idle
    \<comment> \<open>no operation in flight\<close>
  | StartProc bool bool bool string
    \<comment> \<open>the child of \<open>start\<close> runs: \<open>nested\<close>, whether the promise of the non-nested call
        is still pending, \<open>permsMsg\<close>, \<open>errorMessage\<close>\<close>
  | StartSudo bool
    \<comment> \<open>the \<open>exit\<close> handler awaits the \<open>sudo\<close> prompt of \<open>startAgain\<close>\<close>
  | StartNestedCont bool bool
    \<comment> \<open>the nested call's promise was resolved (or rejected); its continuation and the
        rest of the outer handler are due\<close>
  | StartCont
    \<comment> \<open>the promise of \<open>start\<close> was resolved; lines 309 to 318 are due\<close>
  | StopProc string
    \<comment> \<open>the child of \<open>stop\<close> runs: \<open>errorMessage\<close>\<close>
  | DelProc string
    \<comment> \<open>the child of \<open>del\<close> runs: \<open>errorMessage\<close>\<close>
  | ResetExec nat
    \<comment> \<open>\<open>reset\<close> awaits the \<open>exec\<close> of command \<open>k\<close>\<close>

text \<open>Where \<open>start\<close> stands after its \<open>exit\<close> handler.\<close>

definition afterStartExit :: "bool \<Rightarrow> bool \<Rightarrow> Outcome \<Rightarrow> Phase" where
  "afterStartExit nested pending out =
     (case out of
        Escalate \<Rightarrow> StartSudo pending
      | Resolved \<Rightarrow>
          if nested then StartNestedCont True pending
          else if pending then StartCont else Idle
      | Rejected f \<Rightarrow> if nested then StartNestedCont False pending else Idle)"

inductive step :: "string \<Rightarrow> Minikube \<times> Phase \<Rightarrow> Minikube \<times> Phase \<Rightarrow> bool" for home where
  start_called:
    "currentType m = None \<Longrightarrow>
     step home (m, Idle)
       (snd (startCall False m), StartProc False (fst (startCall False m) = None) False [])"
| start_stdout:
    "step home (m, StartProc nested pending permsMsg err)
       (m, StartProc nested pending (onStdout chunk permsMsg) err)"
| start_stderr:
    "step home (m, StartProc nested pending permsMsg err)
       (m, StartProc nested pending permsMsg (onStderr chunk err))"
| start_exited:
    "startExit home nested permsMsg err code sig m = (out, m') \<Longrightarrow>
     step home (m, StartProc nested pending permsMsg err) (m', afterStartExit nested pending out)"
| sudo_granted:
    "step home (m, StartSudo pending) (snd (startCall True m), StartProc True pending False [])"
| sudo_failed:
    "step home (m, StartSudo pending) (clear m, Idle)"
| nested_resolved:
    "step home (m, StartNestedCont True pending)
       (clear (startFinish m), if pending then StartCont else Idle)"
| nested_rejected:
    "step home (m, StartNestedCont False pending) (clear m, Idle)"
| start_continued:
    "step home (m, StartCont) (startFinish m, Idle)"
| stop_called:
    "currentType m = None \<Longrightarrow> stopCall m = (m', spawned) \<Longrightarrow>
     step home (m, Idle) (m', if spawned then StopProc [] else Idle)"
| stop_interrupts_start:
    "currentType m = Some OpStart \<Longrightarrow>
     step home (m, ph) (emit (Killed (current m)) m, ph)"
| stop_stderr:
    "step home (m, StopProc err) (m, StopProc (err @ chunk))"
| stop_exited:
    "step home (m, StopProc err) (snd (stopExit err code m), Idle)"
| del_called:
    "currentType m = None \<Longrightarrow> step home (m, Idle) (snd (delCall m), DelProc [])"
| del_stderr:
    "step home (m, DelProc err) (m, DelProc (err @ chunk))"
| del_exited:
    "step home (m, DelProc err) (snd (delExit err code m), Idle)"
| reset_called:
    "currentType m = None \<Longrightarrow> resetCall m = (m', waiting) \<Longrightarrow>
     step home (m, Idle) (m', if waiting then ResetExec 0 else Idle)"
| reset_exec_ended:
    "resetAfterExec k e m = (m', waiting, thrown) \<Longrightarrow>
     step home (m, ResetExec k) (m', if waiting then ResetExec (Suc k) else Idle)"
| settings_updated:
    "step home (m, ph) (onSettingsChanged k m, ph)"

text \<open>The states the system can be in, from a new controller.\<close>

inductive reachable :: "string \<Rightarrow> Minikube \<times> Phase \<Rightarrow> bool" for home where
  initial: "reachable home (newMinikube k, Idle)"
| after_step: "reachable home s \<Longrightarrow> step home s s' \<Longrightarrow> reachable home s'"

text \<open>
  The lock is held exactly while an operation waits for an event: the guard
  \<open>currentType m = None\<close> of a call lets it in only when the system is idle or a
  continuation is due.
\<close>

definition lockOk :: "Minikube \<times> Phase \<Rightarrow> bool" where
  "lockOk s =
     (case s of (m, ph) \<Rightarrow>
        (currentType m = None) =
        (case ph of Idle \<Rightarrow> True | StartCont \<Rightarrow> True | StartNestedCont a b \<Rightarrow> True | _ \<Rightarrow> False))"

text \<open>
  The invariant: a client reference only in the states \<open>STARTING\<close> and \<open>STARTED\<close>, and
  the state \<open>STARTING\<close> all the while \<open>reset\<close> waits.
\<close>

definition clientInv :: "Minikube \<times> Phase \<Rightarrow> bool" where
  "clientInv s =
     (case s of (m, ph) \<Rightarrow>
        (client m \<noteq> None \<longrightarrow> internalState m = STARTING \<or> internalState m = STARTED)
        \<and> (\<forall>k. ph = ResetExec k \<longrightarrow> internalState m = STARTING))"

section \<open>The cluster access client (src/k8s-engine/client.ts)\<close>

subsection \<open>Numbers as keys: template literals and parseInt\<close>

text \<open>
  The numbers a port can be here: a whole number, \<open>NaN\<close> or an infinity (what \<open>parseInt\<close>
  returns). A JavaScript number is a double, so \<open>Num i\<close> is a number only for the whole
  numbers \<open>i\<close> that a double holds: those with \<open>roundToDouble \<bar>i\<bar> = \<bar>i\<bar>\<close> below \<open>2^1024\<close>.
  Numbers with a fraction are left out, and \<open>-0\<close> is \<open>Num 0\<close>, since both print as \<open>0\<close>.
\<close>

datatype JsNumber = NaN | Num int | PosInfinity | NegInfinity

text \<open>The number of binary digits of \<open>n\<close>.\<close>

fun bitLength :: "nat \<Rightarrow> nat" where
  "bitLength n = (if n = 0 then 0 else Suc (bitLength (n div 2)))"

declare bitLength.simps [simp del]

text \<open>
  The double nearest to a whole number: 53 binary digits are kept, and a tie goes to the
  even neighbour. The result can be \<open>2^1024\<close>, which is no double: the caller makes it
  an infinity.
\<close>

definition roundToDouble :: "nat \<Rightarrow> nat" where
  "roundToDouble n =
     (if n < 2 ^ 53 then n
      else let e = bitLength n - 53;
               q = n div 2 ^ e;
               r = n mod 2 ^ e
           in (if 2 ^ e < 2 * r \<or> (2 * r = 2 ^ e \<and> odd q) then q + 1 else q) * 2 ^ e)"

definition toNumber :: "bool \<Rightarrow> nat \<Rightarrow> JsNumber" where
  "toNumber negative n =
     (let d = roundToDouble n
      in if 2 ^ 1024 \<le> d then (if negative then NegInfinity else PosInfinity)
         else Num (if negative then - int d else int d))"

function natToString :: "nat \<Rightarrow> string" where
  "natToString n =
     (if n < 10 then [''0123456789'' ! n]
      else natToString (n div 10) @ [''0123456789'' ! (n mod 10)])"
  by pat_completeness auto
termination
  by (relation "measure id") auto

declare natToString.simps [simp del]

text \<open>
  The digits that \<open>Number::toString\<close> prints for a double \<open>v\<close> from \<open>2^53\<close> on: the
  fewest digits \<open>s\<close> such that \<open>s \<times> 10^j\<close> rounds to \<open>v\<close>. The search goes from
  the fewest digits to more: at \<open>j\<close> it tries the multiples of \<open>10^j\<close> on either side
  of \<open>v\<close>, and of two that round to \<open>v\<close> it takes the closer one, then the even one.
\<close>

fun shortestDigits :: "nat \<Rightarrow> nat \<Rightarrow> nat \<times> nat" where
  "shortestDigits v j =
     (if j = 0 then (v, 0)
      else let m = 10 ^ j;
               lo = (v div m) * m;
               hi = lo + m;
               okLo = (lo \<noteq> 0 \<and> roundToDouble lo = v);
               okHi = (roundToDouble hi = v)
           in if okLo \<and> (\<not> okHi \<or> v - lo < hi - v \<or> (v - lo = hi - v \<and> even (lo div m)))
              then (lo div m, j)
              else if okHi then (hi div m, j)
              else shortestDigits v (j - 1))"

declare shortestDigits.simps [simp del]

text \<open>
  \<open>`${port}`\<close> for a port that is not negative. Below \<open>2^53\<close> the fewest digits are the
  digits of the whole number itself. Below \<open>10^21\<close> the digits are followed by zeros,
  and from \<open>10^21\<close> on (a double itself, so that the printed number has 21 digits or
  fewer before the point exactly below it) the number is printed with an exponent:
  \<open>1e+21\<close>, \<open>1.2e+22\<close>.
\<close>

definition magnitudeToString :: "nat \<Rightarrow> string" where
  "magnitudeToString v =
     (if v < 2 ^ 53 then natToString v
      else let (s, j) = shortestDigits v (length (natToString v));
               ds = natToString s
           in if v < 10 ^ 21 then ds @ replicate j (CHR ''0'')
              else take 1 ds @ (if length ds = 1 then [] else ''.'' @ drop 1 ds) @
                   ''e+'' @ natToString (length ds + j - 1))"

text \<open>\<open>`${port}`\<close>.\<close>

fun numberToString :: "JsNumber \<Rightarrow> string" where
  "numberToString NaN = ''NaN''"
| "numberToString (Num i) =
     (if i < 0 then ''-'' @ magnitudeToString (nat (- i)) else magnitudeToString (nat i))"
| "numberToString PosInfinity = ''Infinity''"
| "numberToString NegInfinity = ''-Infinity''"

text \<open>The value of a digit in \<open>parseInt\<close>: \<open>0\<close> to \<open>9\<close>, then the letters in either case.\<close>

definition digitValue :: "char \<Rightarrow> nat option" where
  "digitValue c =
     (let n = (of_char c :: nat)
      in if 48 \<le> n \<and> n \<le> 57 then Some (n - 48)
         else if 97 \<le> n \<and> n \<le> 122 then Some (n - 87)
         else if 65 \<le> n \<and> n \<le> 90 then Some (n - 55)
         else None)"

definition isRadixDigit :: "nat \<Rightarrow> char \<Rightarrow> bool" where
  "isRadixDigit r c = (case digitValue c of None \<Rightarrow> False | Some v \<Rightarrow> v < r)"

definition radixValue :: "nat \<Rightarrow> string \<Rightarrow> nat" where
  "radixValue r z = foldl (\<lambda>acc c. acc * r + (case digitValue c of None \<Rightarrow> 0 | Some v \<Rightarrow> v)) 0 z"

text \<open>
  \<open>parseInt(string)\<close> with no radix: leading white space, a sign, the prefix \<open>0x\<close> for
  radix 16, then the longest run of digits; \<open>NaN\<close> when that run is empty, else the
  double nearest to the value of the run, an infinity from \<open>2^1024\<close> on.
\<close>

definition parseInt :: "string \<Rightarrow> JsNumber" where
  "parseInt s =
     (let s1 = dropWhile (inClass Whitespace) s;
          negative = (take 1 s1 = ''-'');
          s2 = (if take 1 s1 = ''-'' \<or> take 1 s1 = ''+'' then drop 1 s1 else s1);
          hex = (take 2 s2 = ''0x'' \<or> take 2 s2 = ''0X'');
          r = (if hex then 16 else 10);
          s3 = (if hex then drop 2 s2 else s2);
          z = takeWhile (isRadixDigit r) s3
      in if z = [] then NaN else toNumber negative (radixValue r z))"

subsection \<open>ForwardingMap\<close>

text \<open>
  \<open>Map<string, net.Server>\<close>: the entries in insertion order, the keys distinct. A
  server is named by a number; what it is doing is in the client's \<open>sockets\<close>.
\<close>

type_synonym ForwardingMap = "(string \<times> nat) list"

text \<open>\<open>`${ namespace || 'default' }/${ endpoint }:${ port }`\<close>.\<close>

definition forwardKey :: "string option \<Rightarrow> string \<Rightarrow> JsNumber \<Rightarrow> string" where
  "forwardKey namespace endpoint port =
     (case namespace of None \<Rightarrow> ''default'' | Some n \<Rightarrow> if n = [] then ''default'' else n) @
     ''/'' @ endpoint @ '':'' @ numberToString port"

definition fmGet :: "ForwardingMap \<Rightarrow> string option \<Rightarrow> string \<Rightarrow> JsNumber \<Rightarrow> nat option" where
  "fmGet fm namespace endpoint port = map_of fm (forwardKey namespace endpoint port)"

definition fmSet :: "ForwardingMap \<Rightarrow> string option \<Rightarrow> string \<Rightarrow> JsNumber \<Rightarrow> nat \<Rightarrow> ForwardingMap" where
  "fmSet fm namespace endpoint port server = assign (forwardKey namespace endpoint port) server fm"

definition fmDelete :: "ForwardingMap \<Rightarrow> string option \<Rightarrow> string \<Rightarrow> JsNumber \<Rightarrow> ForwardingMap" where
  "fmDelete fm namespace endpoint port =
     filter (\<lambda>entry. fst entry \<noteq> forwardKey namespace endpoint port) fm"

definition fmHas :: "ForwardingMap \<Rightarrow> string option \<Rightarrow> string \<Rightarrow> JsNumber \<Rightarrow> bool" where
  "fmHas fm namespace endpoint port = (map_of fm (forwardKey namespace endpoint port) \<noteq> None)"

text \<open>The regular expression of the iterator, \<open>/^([^/]*)\/([^:]+):(\d+)$/\<close>.\<close>

definition forwardingKeyPattern :: "Atom list" where
  "forwardingKeyPattern =
     [Bos, GroupOpen, Greedy (NoneOf ''/''), GroupClose, Lit ''/'',
      GroupOpen, One (NoneOf '':''), Greedy (NoneOf '':''), GroupClose, Lit '':'',
      GroupOpen, One Digit, Greedy Digit, GroupClose, Eos]"

text \<open>
  What the iterator yields for one entry, if anything:
  \<open>const [namespace, endpoint, port] = match; yield [namespace, endpoint, parseInt(port), server]\<close>.
  The destructuring takes the first three elements of the match array, \<open>match[0]\<close> being
  the whole match.
\<close>

definition iterYield :: "string \<times> nat \<Rightarrow> (string \<times> string \<times> JsNumber \<times> nat) option" where
  "iterYield entry =
     (case regexExec forwardingKeyPattern (fst entry) of
        None \<Rightarrow> None
      | Some match \<Rightarrow> Some (match ! 0, match ! 1, parseInt (match ! 2), snd entry))"

text \<open>The iterator run to its end over a map nobody changes meanwhile.\<close>

definition fmIterate :: "ForwardingMap \<Rightarrow> (string \<times> string \<times> JsNumber \<times> nat) list" where
  "fmIterate fm = List.map_filter iterYield fm"

text \<open>
  What the iterator's pattern accepts, in closed form: the key is cut at its first \<open>/\<close>
  and the rest at its first \<open>:\<close>; the middle part must not be empty and the last part
  must be a non-empty run of digits.
\<close>

definition keyParts :: "string \<Rightarrow> (string \<times> string \<times> string) option" where
  "keyParts k =
     (let a = takeWhile (\<lambda>x. x \<noteq> CHR ''/'') k;
          t1 = dropWhile (\<lambda>x. x \<noteq> CHR ''/'') k;
          b = takeWhile (\<lambda>x. x \<noteq> CHR '':'') (tl t1);
          t2 = dropWhile (\<lambda>x. x \<noteq> CHR '':'') (tl t1);
          ds = tl t2
      in if t1 \<noteq> [] \<and> b \<noteq> [] \<and> t2 \<noteq> [] \<and> ds \<noteq> [] \<and> list_all (inClass Digit) ds
         then Some (a, b, ds) else None)"

subsection \<open>KubeClient\<close>

text \<open>A \<open>net.Server\<close>: created, listening on a port, or closed.\<close>

datatype ServerState = Created | Listening nat | Closed

text \<open>The fields of \<open>V1Service\<close> and \<open>V1ServicePort\<close> that \<open>listServices\<close> reads.\<close>

record V1ServicePort =
  portName :: "string option"
  targetPort :: JsNumber

record V1Service =
  metadataNamespace :: "string option"
  metadataName :: "string option"
  specPorts :: "V1ServicePort list"

record ServiceEntry =
  entryNamespace :: "string option"
  entryName :: string
  entryPortName :: "string option"
  entryPort :: JsNumber
  listenPort :: "nat option"

datatype ClientError =
  TypeError
    \<comment> \<open>reading \<open>.port\<close> of \<open>null\<close>, or \<open>.flatMap\<close> of what is no array\<close>
  | ListenError
    \<comment> \<open>the \<open>error\<close> event of the listener\<close>
  | ServerClosed
    \<comment> \<open>\<open>new Error('Server closed')\<close>\<close>

record KubeClient =
  servers :: ForwardingMap
  shutdown :: bool
  sockets :: "nat \<Rightarrow> ServerState option"
  nextServer :: nat
  watched :: "V1Service list"
  indexCache :: "string \<Rightarrow> V1Service list option"
  subscribed :: bool
  emitted :: "ServiceEntry list list"

text \<open>
  The cache of the library's \<open>ListWatch\<close> (\<open>@kubernetes/client-node\<close> 0.13, not among
  the sources) is two fields: \<open>watched\<close>, its array \<open>objects\<close>, and \<open>indexCache\<close>, its
  object of that name, which maps a namespace to the array of the watched services of
  that namespace. A namespace the cache has no array for maps to \<open>None\<close>, the
  \<open>undefined\<close> that reading the object gives.
\<close>

text \<open>
  The client after its constructor, once the watch has listed the services \<open>svcs\<close>
  (distinct by namespace and name): every namespace that has a service has its array. The
  creator subscribes to \<open>service-changed\<close> next.
\<close>

definition newKubeClient :: "V1Service list \<Rightarrow> KubeClient" where
  "newKubeClient svcs =
     \<lparr> servers = [], shutdown = False, sockets = (\<lambda>_. None), nextServer = 0,
       watched = svcs,
       indexCache = (\<lambda>n. if n \<noteq> [] \<and> (\<exists>s \<in> set svcs. metadataNamespace s = Some n)
                         then Some (filter (\<lambda>s. metadataNamespace s = Some n) svcs)
                         else None),
       subscribed = False, emitted = [] \<rparr>"

text \<open>\<open>server.address()\<close>: \<open>null\<close> unless the server is listening.\<close>

definition address :: "KubeClient \<Rightarrow> nat \<Rightarrow> nat option" where
  "address c server = (case sockets c server of Some (Listening p) \<Rightarrow> Some p | _ \<Rightarrow> None)"

definition closeServer :: "nat \<Rightarrow> KubeClient \<Rightarrow> KubeClient" where
  "closeServer server c = c\<lparr> sockets := (sockets c)(server \<mapsto> Closed) \<rparr>"

text \<open>
  \<open>this.services.list(namespace)\<close> of the library's \<open>ListWatch\<close>:
  \<open>if (!namespace) return this.objects; return this.indexCache[namespace]\<close>. Without a
  namespace, and for the empty string, that is every watched service; for a namespace
  that has no array it is \<open>undefined\<close> (\<open>None\<close>).
\<close>

definition servicesList :: "KubeClient \<Rightarrow> string option \<Rightarrow> V1Service list option" where
  "servicesList c namespace =
     (case namespace of
        None \<Rightarrow> Some (watched c)
      | Some n \<Rightarrow> if n = [] then Some (watched c) else indexCache c n)"

text \<open>
  The body of the inner \<open>map\<close> of \<open>listServices\<close>. \<open>server?.address()\<close> is \<open>undefined\<close>
  without a server, \<open>null\<close> for a server that is not listening, else the address; only
  \<open>undefined\<close> is tested for before \<open>.port\<close> is read.
\<close>

definition serviceEntry :: "KubeClient \<Rightarrow> V1Service \<Rightarrow> V1ServicePort \<Rightarrow> ClientError + ServiceEntry" where
  "serviceEntry c service port =
     (let namespace = metadataNamespace service;
          name = (case metadataName service of None \<Rightarrow> [] | Some n \<Rightarrow> n);
          portNumber = targetPort port;
          server = fmGet (servers c) namespace name portNumber;
          entry = \<lparr> entryNamespace = namespace, entryName = name,
                    entryPortName = portName port, entryPort = portNumber, listenPort = None \<rparr>
      in case server of
           None \<Rightarrow> Inr entry
         | Some s \<Rightarrow>
             (case address c s of
                None \<Rightarrow> Inl TypeError
              | Some p \<Rightarrow> Inr (entry\<lparr> listenPort := Some p \<rparr>)))"

text \<open>\<open>map\<close> with a callback that can throw: the first exception ends it.\<close>

fun mapThrowing :: "('a \<Rightarrow> 'e + 'b) \<Rightarrow> 'a list \<Rightarrow> 'e + 'b list" where
  "mapThrowing f [] = Inr []"
| "mapThrowing f (x # xs) =
     (case f x of
        Inl e \<Rightarrow> Inl e
      | Inr y \<Rightarrow> (case mapThrowing f xs of Inl e \<Rightarrow> Inl e | Inr ys \<Rightarrow> Inr (y # ys)))"

text \<open>
  \<open>listServices\<close>: \<open>flatMap\<close> over the list of the cache, which throws at once when
  that list is \<open>undefined\<close>.
\<close>

definition listServices :: "KubeClient \<Rightarrow> string option \<Rightarrow> ClientError + ServiceEntry list" where
  "listServices c namespace =
     (case servicesList c namespace of
        None \<Rightarrow> Inl TypeError
      | Some services \<Rightarrow>
          (case mapThrowing (\<lambda>service. mapThrowing (serviceEntry c service) (specPorts service))
                  services of
             Inl e \<Rightarrow> Inl e
           | Inr entries \<Rightarrow> Inr (concat entries)))"

text \<open>\<open>this.emit('service-changed', this.listServices())\<close>.\<close>

definition emitServiceChanged :: "KubeClient \<Rightarrow> (ClientError + unit) \<times> KubeClient" where
  "emitServiceChanged c =
     (case listServices c None of
        Inl e \<Rightarrow> (Inl e, c)
      | Inr entries \<Rightarrow>
          (Inr (), if subscribed c then c\<lparr> emitted := emitted c @ [entries] \<rparr> else c))"

text \<open>
  \<open>createForwardingServer\<close> up to its \<open>await\<close>, lines 270 to 342: nothing when the map
  has a server for the triple, else a new server, registered and told to listen. The
  second component is the server the call now waits for.
\<close>

definition createForwardingServerBegin ::
    "string \<Rightarrow> string \<Rightarrow> JsNumber \<Rightarrow> KubeClient \<Rightarrow> KubeClient \<times> nat option" where
  "createForwardingServerBegin namespace endpoint port c =
     (case fmGet (servers c) (Some namespace) endpoint port of
        Some s \<Rightarrow> (c, None)
      | None \<Rightarrow>
          (let server = nextServer c;
               c1 = c\<lparr> sockets := (sockets c)(server \<mapsto> Created), nextServer := Suc server \<rparr>;
               c2 = c1\<lparr> servers := fmSet (servers c1) (Some namespace) endpoint port server \<rparr>
           in (c2, Some server)))"

text \<open>What the listener reports first: \<open>listening\<close> (on a port), \<open>error\<close> or \<open>close\<close>.\<close>

datatype ListenerEvent = EvListening nat | EvError | EvClose

text \<open>
  \<open>createForwardingServer\<close> from the event on, lines 343 to 349. On \<open>error\<close> and on
  \<open>close\<close> the awaited promise is rejected and the method throws at once.
\<close>

definition createForwardingServerEnd ::
    "string \<Rightarrow> string \<Rightarrow> JsNumber \<Rightarrow> nat \<Rightarrow> ListenerEvent \<Rightarrow> KubeClient \<Rightarrow>
     (ClientError + unit) \<times> KubeClient" where
  "createForwardingServerEnd namespace endpoint port server ev c =
     (case ev of
        EvError \<Rightarrow> (Inl ListenError, c)
      | EvClose \<Rightarrow> (Inl ServerClosed, c)
      | EvListening p \<Rightarrow>
          (let c1 = c\<lparr> sockets := (sockets c)(server \<mapsto> Listening p) \<rparr>;
               c2 = (if fmGet (servers c1) (Some namespace) endpoint port \<noteq> Some server
                     then closeServer server c1 else c1)
           in emitServiceChanged c2))"

text \<open>The whole method, when nothing else runs while it waits for the listener.\<close>

definition createForwardingServer ::
    "string \<Rightarrow> string \<Rightarrow> JsNumber \<Rightarrow> ListenerEvent \<Rightarrow> KubeClient \<Rightarrow>
     (ClientError + unit) \<times> KubeClient" where
  "createForwardingServer namespace endpoint port ev c =
     (case createForwardingServerBegin namespace endpoint port c of
        (c1, None) \<Rightarrow> (Inr (), c1)
      | (c1, Some server) \<Rightarrow> createForwardingServerEnd namespace endpoint port server ev c1)"

text \<open>
  \<open>forwardPort\<close>: \<open>undefined\<close> (\<open>Inr None\<close>) without a server for the triple, a
  \<open>TypeError\<close> when the server has no address, else the port.
\<close>

definition forwardPort ::
    "string \<Rightarrow> string \<Rightarrow> JsNumber \<Rightarrow> ListenerEvent \<Rightarrow> KubeClient \<Rightarrow>
     (ClientError + nat option) \<times> KubeClient" where
  "forwardPort namespace endpoint port ev c =
     (case createForwardingServer namespace endpoint port ev c of
        (Inl e, c1) \<Rightarrow> (Inl e, c1)
      | (Inr u, c1) \<Rightarrow>
          (case fmGet (servers c1) (Some namespace) endpoint port of
             None \<Rightarrow> (Inr None, c1)
           | Some server \<Rightarrow>
               (case address c1 server of
                  None \<Rightarrow> (Inl TypeError, c1)
                | Some p \<Rightarrow> (Inr (Some p), c1))))"

definition cancelForwardPort ::
    "string \<Rightarrow> string \<Rightarrow> JsNumber \<Rightarrow> KubeClient \<Rightarrow> (ClientError + unit) \<times> KubeClient" where
  "cancelForwardPort namespace endpoint port c =
     (let server = fmGet (servers c) (Some namespace) endpoint port;
          c1 = c\<lparr> servers := fmDelete (servers c) (Some namespace) endpoint port \<rparr>
      in case server of
           None \<Rightarrow> (Inr (), c1)
         | Some s \<Rightarrow> emitServiceChanged (closeServer s c1))"

text \<open>
  The loop of \<open>destroy\<close> over the entries the map's iterator has not yet visited. The
  iterator of a \<open>Map\<close> is live: an entry the body deletes is not visited later.
\<close>

function destroyLoop :: "(string \<times> nat) list \<Rightarrow> KubeClient \<Rightarrow> KubeClient" where
  "destroyLoop [] c = c"
| "destroyLoop (entry # rest) c =
     (case iterYield entry of
        None \<Rightarrow> destroyLoop rest c
      | Some (namespace, endpoint, port, server) \<Rightarrow>
          destroyLoop (fmDelete rest (Some namespace) endpoint port)
            (closeServer server
               (c\<lparr> servers := fmDelete (servers c) (Some namespace) endpoint port \<rparr>)))"
  by pat_completeness auto
termination
  by (relation "measure (\<lambda>(todo, c). length todo)") (auto simp: fmDelete_def less_Suc_eq_le)

definition destroy :: "KubeClient \<Rightarrow> KubeClient" where
  "destroy c = (destroyLoop (servers c) (c\<lparr> shutdown := True \<rparr>))\<lparr> subscribed := False \<rparr>"

section \<open>Concrete inputs\<close>

definition exampleSettings :: KubernetesSettings where
  "exampleSettings = \<lparr> cfg_version = ''v1.19.7'', memoryInGB = 2, numberCPUs = 4 \<rparr>"

definition exampleConfig :: MinikubeConfiguration where
  "exampleConfig =
     \<lparr> CPUs = 2, Memory = 2048, DiskSize = 20000, Driver = ''hyperkit'',
       KubernetesVersion = ''v1.19.7'', ContainerRuntime = ''containerd'',
       Bootstrapper = ''k3s'' \<rparr>"

text \<open>A child that writes \<open>err\<close> to its \<open>stderr\<close> and exits with \<open>code\<close>.\<close>

definition exitsWith :: "int \<Rightarrow> string list \<Rightarrow> ProcessRun" where
  "exitsWith code err =
     \<lparr> stdoutData = [], stderrData = err, exitCode = Some code, exitSignal = None \<rparr>"

text \<open>The controller after \<open>start()\<close> from the initial state, the child exiting with 0.\<close>

definition startedMinikube :: Minikube where
  "startedMinikube = snd (start ''/data'' (exitsWith 0 []) None (newMinikube exampleSettings))"

text \<open>What minikube prints when asked to downgrade, in two chunks.\<close>

definition downgradeStderr :: "string list" where
  "downgradeStderr =
     [''X Exiting due to K8S_DOWNGRADE_UNSUPPORTED: Unable to safely downgrade '' @
      ''existing Kubernetes v1.20.2 cluster to v1.19.7'' @ [CHR 0x0A] @
      ''* Suggestion: '' @ [CHR 0x0A, CHR 0x0A],
      ''    1) Recreate the cluster with Kubernetes 1.19.7, by running:'' @ [CHR 0x0A] @
      ''    '' @ [CHR 0x0A] @
      ''    minikube delete -p rancher-desktop'' @ [CHR 0x0A] @
      ''    minikube start -p rancher-desktop --kubernetes-version=v1.19.7'' @ [CHR 0x0A] @
      ''    '' @ [CHR 0x0A]]"

text \<open>
  The controller right after the \<open>exit\<close> handler of a first \<open>start()\<close> whose child exited
  with code 0: lines 309 to 318 have not run yet.
\<close>

definition startedWithoutClient :: Minikube where
  "startedWithoutClient =
     snd (startExit ''/data'' False False [] (Some 0) None
            (snd (startCall False (newMinikube exampleSettings))))"

text \<open>The controller after a \<open>start()\<close> whose child exited with code 1.\<close>

definition failedMinikube :: Minikube where
  "failedMinikube =
     snd (start ''/data'' (exitsWith 1 [''boom'']) None (newMinikube exampleSettings))"

text \<open>The controller after a second \<open>start()\<close>, whose child exited with code 0.\<close>

definition restartedAfterError :: Minikube where
  "restartedAfterError = snd (start ''/data'' (exitsWith 0 []) None failedMinikube)"

text \<open>The started controller while \<open>reset()\<close> waits for its first \<open>exec\<close>.\<close>

definition resettingMinikube :: Minikube where
  "resettingMinikube = fst (resetCall startedMinikube)"

text \<open>A service \<open>default/web\<close> with one port, 80.\<close>

definition webService :: V1Service where
  "webService =
     \<lparr> metadataNamespace = Some ''default'', metadataName = Some ''web'',
       specPorts = [\<lparr> portName = Some ''http'', targetPort = Num 80 \<rparr>] \<rparr>"

text \<open>Two forwards, the second for an endpoint name with \<open>:\<close> and \<open>/\<close> in it.\<close>

definition twoForwards :: KubeClient where
  "twoForwards =
     snd (forwardPort ''a'' ''1:5/a'' (Num 1) (EvListening 50001)
            (snd (forwardPort ''a'' ''1'' (Num 5) (EvListening 50000) (newKubeClient []))))"

text \<open>One forward, for the port -1.\<close>

definition negativePortForward :: KubeClient where
  "negativePortForward =
     snd (forwardPort ''default'' ''web'' (Num (- 1)) (EvListening 50000) (newKubeClient []))"

text \<open>One forward, for \<open>default/web:80\<close>.\<close>

definition webForward :: KubeClient where
  "webForward =
     snd (forwardPort ''default'' ''web'' (Num 80) (EvListening 50000)
            (newKubeClient [webService]))"

section \<open>Properties of the controller\<close>

subsection \<open>The fields after each primitive\<close>

lemma setState_fields [simp]:
  "internalState (setState v m) = v"
  "client (setState v m) = (if v = STOPPING \<or> v = STOPPED \<or> v = ERROR then None else client m)"
  "current (setState v m) = current m"
  "currentType (setState v m) = currentType m"
  "version (setState v m) = version m"
  "cfg (setState v m) = cfg m"
  "nextClient (setState v m) = nextClient m"
  "nextProcess (setState v m) = nextProcess m"
  "effects (setState v m) = effects m @ StateChanged v #
     (if v = STOPPING \<or> v = STOPPED \<or> v = ERROR
      then (case client m of None \<Rightarrow> [] | Some c \<Rightarrow> [ClientDestroyed c]) else [])"
  by (simp_all add: setState_def emit_def destroyClient_def Let_def split: option.splits)

lemma spawn_fields [simp]:
  "internalState (spawn args m) = internalState m"
  "client (spawn args m) = client m"
  "current (spawn args m) = Some (nextProcess m)"
  "currentType (spawn args m) = currentType m"
  "version (spawn args m) = version m"
  "cfg (spawn args m) = cfg m"
  "nextClient (spawn args m) = nextClient m"
  "nextProcess (spawn args m) = Suc (nextProcess m)"
  "effects (spawn args m) = effects m @ [Spawned (nextProcess m) args]"
  by (simp_all add: spawn_def emit_def)

lemma createClient_fields [simp]:
  "internalState (createClient m) = internalState m"
  "client (createClient m) = Some (nextClient m)"
  "current (createClient m) = current m"
  "currentType (createClient m) = currentType m"
  "version (createClient m) = version m"
  "cfg (createClient m) = cfg m"
  "nextClient (createClient m) = Suc (nextClient m)"
  "nextProcess (createClient m) = nextProcess m"
  "effects (createClient m) = effects m @ [ClientCreated (nextClient m)]"
  by (simp_all add: createClient_def emit_def)

lemma clear_fields [simp]:
  "internalState (clear m) = internalState m"
  "client (clear m) = client m"
  "current (clear m) = None"
  "currentType (clear m) = None"
  "version (clear m) = version m"
  "cfg (clear m) = cfg m"
  "nextClient (clear m) = nextClient m"
  "nextProcess (clear m) = nextProcess m"
  "effects (clear m) = effects m"
  by (simp_all add: clear_def)

lemma destroyClient_fields [simp]:
  "internalState (destroyClient m) = internalState m"
  "client (destroyClient m) = client m"
  "current (destroyClient m) = current m"
  "currentType (destroyClient m) = currentType m"
  "version (destroyClient m) = version m"
  "cfg (destroyClient m) = cfg m"
  "nextClient (destroyClient m) = nextClient m"
  "nextProcess (destroyClient m) = nextProcess m"
  "effects (destroyClient m) =
     effects m @ (case client m of None \<Rightarrow> [] | Some c \<Rightarrow> [ClientDestroyed c])"
  by (simp_all add: destroyClient_def emit_def split: option.splits)

lemma startCall_eq:
  "startCall nested m =
     (if \<not> nested \<and> internalState m \<noteq> STOPPED
      then Some (UnstoppedCluster (internalState m)) else None,
      spawn (startArgs (m\<lparr> version := Some (cfg_version (cfg m)) \<rparr>))
        ((setState STARTING (m\<lparr> currentType := Some OpStart \<rparr>))
           \<lparr> version := Some (cfg_version (cfg m)) \<rparr>))"
  by (simp add: startCall_def Let_def startArgs_def)

lemma startCall_fields [simp]:
  "internalState (snd (startCall nested m)) = STARTING"
  "client (snd (startCall nested m)) = client m"
  "currentType (snd (startCall nested m)) = Some OpStart"
  "nextClient (snd (startCall nested m)) = nextClient m"
  "nextProcess (snd (startCall nested m)) = Suc (nextProcess m)"
  "cfg (snd (startCall nested m)) = cfg m"
  "effects (snd (startCall nested m)) =
     effects m @ [StateChanged STARTING,
       Spawned (nextProcess m) (startArgs (m\<lparr> version := Some (cfg_version (cfg m)) \<rparr>))]"
  by (simp_all add: startCall_eq)

lemma startedMinikube_eq:
  "startedMinikube =
     \<lparr> internalState = STARTED, client = Some 0, current = None, currentType = None,
       version = Some ''v1.19.7'', cfg = exampleSettings, nextClient = 1, nextProcess = 1,
       effects =
         [StateChanged STARTING,
          Spawned 0
            (map A [''start'', ''-b'', ''k3s'', ''-p'', ''rancher-desktop'', ''--driver'',
                    ''hyperkit'', ''--container-runtime'', ''containerd'',
                    ''--interactive=false''] @
             [ArgKubernetesVersion (Some ''v1.19.7''), ArgCpus 4]),
          StateChanged STARTED, StateChanged STARTED, ClientCreated 0] \<rparr>"
  by (simp add: startedMinikube_def start_def startCall_def startExit_def startAfterAwait_def
      startFinish_def settle_def setState_def emit_def destroyClient_def createClient_def
      spawn_def clear_def startArgs_def permsMsgOf_def errorMessageOf_def exitsWith_def
      newMinikube_def exampleSettings_def)

lemma errorMessageOf_concat: "errorMessageOf r = concat (stderrData r)"
proof -
  have "foldl (\<lambda>e chunk. onStderr chunk e) acc xs = acc @ concat xs" for acc xs
    by (induction xs arbitrary: acc) (simp_all add: onStderr_def)
  then show ?thesis by (simp add: errorMessageOf_def)
qed

lemma start_exit0:
  assumes "exitCode r = Some 0"
  shows "start home r again m =
     startAfterAwait (fst (startCall False m))
       (clear (setState STARTED (snd (startCall False m))))"
  using assms by (simp add: start_def startExit_def settle_def split: prod.splits option.splits)

lemma startExit_failure:
  assumes "code \<noteq> Some 0" and "sig \<noteq> Some ''SIGINT''"
    and "\<not> (code = Some 80 \<and> permsMsg \<and> \<not> nested)"
  shows "startExit home nested permsMsg err code sig m =
     (Rejected (ProcessFailure ''starting minikube'' code (customizeMinikubeMessage home err)),
      clear (setState ERROR m))"
  using assms by (auto simp add: startExit_def)

subsection \<open>requiresRestartReasons\<close>

text \<open>
  C3, as the claim states it, fails: with 2 CPUs running and 4 wanted, the memory and the
  bootstrapper as wanted, the result is not \<open>{cpu: [2, 4]}\<close>; it also holds the keys
  \<open>memory\<close> and \<open>bootstrapper\<close>, each with an empty tuple.
\<close>

theorem requiresRestartReasons_keeps_matching_keys:
  "requiresRestartReasons ((newMinikube exampleSettings)\<lparr> internalState := STARTED \<rparr>)
     (Parsed exampleConfig)
   = Inr [(''cpu'', [JNum 2, JNum 4]), (''memory'', []), (''bootstrapper'', [])]
   \<and> requiresRestartReasons ((newMinikube exampleSettings)\<lparr> internalState := STARTED \<rparr>)
     (Parsed exampleConfig)
   \<noteq> Inr [(''cpu'', [JNum 2, JNum 4])]"
  by (simp add: requiresRestartReasons_def minikubeConfig_def newMinikube_def
      exampleSettings_def exampleConfig_def cmp_def)

text \<open>
  C3, amended: \<open>requiresRestartReasons\<close> returns the empty mapping when the state is not
  \<open>STARTED\<close>, when \<open>config.json\<close> does not exist and when it parses to \<open>null\<close>; it throws
  when the file cannot be read or parsed; otherwise it returns a mapping with the three
  keys \<open>cpu\<close>, \<open>memory\<close> and \<open>bootstrapper\<close>, in this order, where a key whose values differ
  maps to the pair \<open>[actual, desired]\<close> and a key whose values agree maps to the empty
  tuple (as the doc comment of the method says).
\<close>

theorem requiresRestartReasons_reports_every_key:
  "requiresRestartReasons m f =
     (if internalState m \<noteq> STARTED then Inr []
      else case f of
         Enoent \<Rightarrow> Inr []
       | Unreadable \<Rightarrow> Inl ReadFailure
       | ParsedNull \<Rightarrow> Inr []
       | Parsed c \<Rightarrow>
           Inr [(''cpu'',
                 if CPUs c = numberCPUs (cfg m) then []
                 else [JNum (CPUs c), JNum (numberCPUs (cfg m))]),
                (''memory'',
                 if Memory c / 1024 = memoryInGB (cfg m) then []
                 else [JNum (Memory c / 1024), JNum (memoryInGB (cfg m))]),
                (''bootstrapper'',
                 if Bootstrapper c = ''k3s'' then []
                 else [JStr (Bootstrapper c), JStr ''k3s''])])"
  by (simp add: requiresRestartReasons_def minikubeConfig_def cmp_def split: ConfigFile.splits)

subsection \<open>start and del outside the state \<open>STOPPED\<close>\<close>

text \<open>
  C2 at a failing input: \<open>start()\<close> on a started controller. The promise is rejected at
  line 208, and the executor goes on: it announces \<open>STARTING\<close> and spawns
  \<open>minikube start\<close>.
\<close>

theorem start_when_started_spawns:
  "fst (startCall False startedMinikube) = Some (UnstoppedCluster STARTED)
   \<and> internalState (snd (startCall False startedMinikube)) = STARTING
   \<and> effects (snd (startCall False startedMinikube)) =
       effects startedMinikube @
       [StateChanged STARTING,
        Spawned 1
          (map A [''start'', ''-b'', ''k3s'', ''-p'', ''rancher-desktop'', ''--driver'',
                  ''hyperkit'', ''--container-runtime'', ''containerd'',
                  ''--interactive=false''] @
           [ArgKubernetesVersion (Some ''v1.19.7''), ArgCpus 4])]"
  by (simp add: startCall_eq startedMinikube_eq startArgs_def exampleSettings_def)

text \<open>
  C6 at a failing input: \<open>del()\<close> on a started controller. The promise is rejected with 1
  at line 390, and the executor goes on to spawn \<open>minikube delete\<close>.
\<close>

theorem del_when_started_spawns:
  "fst (delCall startedMinikube) = Some RejectedOne
   \<and> effects (snd (delCall startedMinikube)) =
       effects startedMinikube @
       [Spawned 1 (map A [''delete'', ''-p'', ''rancher-desktop''])]"
  by (simp add: delCall_def Let_def startedMinikube_eq)

subsection \<open>A successful start\<close>

text \<open>
  C10: when a non-nested \<open>start()\<close> succeeds and its child exited with code 0, the
  controller has announced \<open>STARTING\<close>, spawned the child, announced \<open>STARTED\<close> in the
  \<open>exit\<close> handler, announced \<open>STARTED\<close> again after the \<open>await\<close>, and only then
  constructed the client: these five effects, in this order, and no other.
\<close>

theorem start_success_announces_started_twice:
  assumes "fst (start home r again m) = None" and "exitCode r = Some 0"
  shows "effects (snd (start home r again m)) =
           effects m @
           [StateChanged STARTING,
            Spawned (nextProcess m) (startArgs (m\<lparr> version := Some (cfg_version (cfg m)) \<rparr>)),
            StateChanged STARTED,
            StateChanged STARTED,
            ClientCreated (nextClient m)]
         \<and> client (snd (start home r again m)) = Some (nextClient m)
         \<and> internalState (snd (start home r again m)) = STARTED"
  using assms
  by (simp add: start_exit0 startAfterAwait_def startFinish_def split: option.splits)

theorem start_success_announces_started_twice_witness:
  "fst (start ''/data'' (exitsWith 0 []) None (newMinikube exampleSettings)) = None
   \<and> exitCode (exitsWith 0 []) = Some 0
   \<and> effects (snd (start ''/data'' (exitsWith 0 []) None (newMinikube exampleSettings))) =
       [StateChanged STARTING,
        Spawned 0
          (map A [''start'', ''-b'', ''k3s'', ''-p'', ''rancher-desktop'', ''--driver'',
                  ''hyperkit'', ''--container-runtime'', ''containerd'',
                  ''--interactive=false''] @
           [ArgKubernetesVersion (Some ''v1.19.7''), ArgCpus 4]),
        StateChanged STARTED,
        StateChanged STARTED,
        ClientCreated 0]
   \<and> client (snd (start ''/data'' (exitsWith 0 []) None (newMinikube exampleSettings))) = Some 0
   \<and> internalState (snd (start ''/data'' (exitsWith 0 []) None (newMinikube exampleSettings)))
       = STARTED"
proof -
  have ok: "fst (start ''/data'' (exitsWith 0 []) None (newMinikube exampleSettings)) = None"
    by (simp add: start_exit0 exitsWith_def startCall_eq startAfterAwait_def newMinikube_def)
  have code: "exitCode (exitsWith 0 []) = Some 0"
    by (simp add: exitsWith_def)
  show ?thesis
    using ok code start_success_announces_started_twice [OF ok code]
    by (simp add: newMinikube_def startArgs_def exampleSettings_def)
qed

subsection \<open>The failure message of start\<close>

lemma search_needs_literal:
  "\<not> jsIncludes s l \<Longrightarrow> search (Lit l # r) s b = None"
  by (induction s arbitrary: b) auto

text \<open>
  A text without the words \<open>X Exiting due to K8S_DOWNGRADE_UNSUPPORTED:\<close> does not match
  the pattern, and passes unchanged.
\<close>

lemma customizeMinikubeMessage_unrelated:
  assumes "\<not> jsIncludes e ''X Exiting due to K8S_DOWNGRADE_UNSUPPORTED:''"
  shows "customizeMinikubeMessage home e = e"
  using search_needs_literal [OF assms]
  by (simp add: customizeMinikubeMessage_def regexExec_def downgradePattern_def)

lemma downgradeStderr_match:
  "regexExec downgradePattern (concat downgradeStderr) =
     Some [''X Exiting due to K8S_DOWNGRADE_UNSUPPORTED: Unable to safely downgrade '' @
           ''existing Kubernetes v1.20.2 cluster to v1.19.7'' @ [CHR 0x0A] @
           ''* Suggestion: '' @ [CHR 0x0A, CHR 0x0A] @
           ''    1) Recreate the cluster with Kubernetes 1.19.7, by running:'' @ [CHR 0x0A] @
           ''    '' @ [CHR 0x0A] @
           ''    minikube delete -p rancher-desktop'' @ [CHR 0x0A] @
           ''    minikube start -p rancher-desktop --kubernetes-version=v1.19.7'' @ [CHR 0x0A],
           ''Unable to safely downgrade existing Kubernetes v1.20.2 cluster to v1.19.7'',
           ''Recreate the cluster with Kubernetes 1.19.7, by running:'',
           ''minikube delete -p rancher-desktop'',
           ''minikube start -p rancher-desktop --kubernetes-version=v1.19.7'']"
  by code_simp

lemma downgradeStderr_rewritten:
  "customizeMinikubeMessage ''/Users/me/Library/Application Support/rancher-desktop''
     (concat downgradeStderr) =
   ''Unable to safely downgrade existing Kubernetes v1.20.2 cluster to v1.19.7'' @
   [CHR 0x0A, CHR 0x0A] @ ''Suggested fix:'' @ [CHR 0x0A, CHR 0x0A] @
   ''Recreate the cluster with Kubernetes 1.19.7, by running:'' @ [CHR 0x0A, CHR 0x0A] @
   ''export MINIKUBE_HOME='' @ [CHR 0x22] @
   ''/Users/me/Library/Application Support/rancher-desktop'' @ [CHR 0x22] @
   [CHR 0x0A, CHR 0x0A] @ ''minikube delete -p rancher-desktop'' @ [CHR 0x0A, CHR 0x0A] @
   ''minikube start -p rancher-desktop --kubernetes-version=v1.19.7 --driver=hyperkit'' @
   [CHR 0x0A]"
  by code_simp

text \<open>The same for the nested call of \<open>startAgain\<close>, whatever the state.\<close>

lemma startNested_failure_message:
  assumes "exitCode r \<noteq> Some 0" and "exitSignal r \<noteq> Some ''SIGINT''"
  shows "startNested home r m =
     (Some (ProcessFailure ''starting minikube'' (exitCode r)
              (customizeMinikubeMessage home (concat (stderrData r)))),
      clear (setState ERROR (snd (startCall True m))))"
  using assms
  by (auto simp add: startNested_def startExit_failure startAfterAwait_def settle_def
      errorMessageOf_concat startCall_eq)

text \<open>
  C7: let the child of \<open>start\<close> exit with a code other than 0, without \<open>SIGINT\<close> and
  without the escalation condition (code 80 after the permissions message). Then the
  exit handler, in whatever state it runs, sets the state to \<open>ERROR\<close> and rejects with
  \<open>{ context: 'starting minikube', errorCode, message }\<close>, where the message is
  \<open>customizeMinikubeMessage\<close> of the accumulated \<open>stderr\<close>: the rewritten text built from
  the groups of the match when the pattern matches, and the \<open>stderr\<close> text itself when it
  does not. A \<open>start()\<close> called in the state \<open>STOPPED\<close> fails with that value and ends in
  the state \<open>ERROR\<close>.
\<close>

theorem start_failure_message:
  assumes "exitCode r \<noteq> Some 0" and "exitSignal r \<noteq> Some ''SIGINT''"
    and "\<not> (exitCode r = Some 80 \<and> permsMsgOf r)"
  shows "startExit home nested (permsMsgOf r) (errorMessageOf r) (exitCode r) (exitSignal r) m =
           (Rejected (ProcessFailure ''starting minikube'' (exitCode r)
                        (customizeMinikubeMessage home (concat (stderrData r)))),
            clear (setState ERROR m))
         \<and> internalState (clear (setState ERROR m)) = ERROR
         \<and> (internalState m = STOPPED \<longrightarrow>
              fst (start home r again m) =
                Some (ProcessFailure ''starting minikube'' (exitCode r)
                        (customizeMinikubeMessage home (concat (stderrData r))))
              \<and> internalState (snd (start home r again m)) = ERROR)
         \<and> customizeMinikubeMessage home (concat (stderrData r)) =
             (case regexExec downgradePattern (concat (stderrData r)) of
                Some groups \<Rightarrow> fixedMessage home groups
              | None \<Rightarrow> concat (stderrData r))"
proof -
  have handler: "startExit home n (permsMsgOf r) (errorMessageOf r) (exitCode r) (exitSignal r) k =
      (Rejected (ProcessFailure ''starting minikube'' (exitCode r)
                   (customizeMinikubeMessage home (concat (stderrData r)))),
       clear (setState ERROR k))" for n k
    using assms by (auto simp add: startExit_def errorMessageOf_concat)
  have called: "fst (start home r again m) =
                  Some (ProcessFailure ''starting minikube'' (exitCode r)
                          (customizeMinikubeMessage home (concat (stderrData r))))
                \<and> internalState (snd (start home r again m)) = ERROR"
    if "internalState m = STOPPED"
    using that by (simp add: start_def handler startAfterAwait_def settle_def startCall_eq)
  show ?thesis
    using handler called by (simp add: customizeMinikubeMessage_def)
qed

theorem start_failure_message_witness:
  "fst (start ''/data'' (exitsWith 1 [''bo'', ''om'']) None (newMinikube exampleSettings)) =
     Some (ProcessFailure ''starting minikube'' (Some 1) ''boom'')
   \<and> internalState
       (snd (start ''/data'' (exitsWith 1 [''bo'', ''om'']) None (newMinikube exampleSettings)))
     = ERROR
   \<and> regexExec downgradePattern ''boom'' = None
   \<and> fst (start ''/Users/me/Library/Application Support/rancher-desktop''
            (exitsWith 1 downgradeStderr) None (newMinikube exampleSettings)) =
     Some (ProcessFailure ''starting minikube'' (Some 1)
       (''Unable to safely downgrade existing Kubernetes v1.20.2 cluster to v1.19.7'' @
        [CHR 0x0A, CHR 0x0A] @ ''Suggested fix:'' @ [CHR 0x0A, CHR 0x0A] @
        ''Recreate the cluster with Kubernetes 1.19.7, by running:'' @ [CHR 0x0A, CHR 0x0A] @
        ''export MINIKUBE_HOME='' @ [CHR 0x22] @
        ''/Users/me/Library/Application Support/rancher-desktop'' @ [CHR 0x22] @
        [CHR 0x0A, CHR 0x0A] @ ''minikube delete -p rancher-desktop'' @ [CHR 0x0A, CHR 0x0A] @
        ''minikube start -p rancher-desktop --kubernetes-version=v1.19.7 --driver=hyperkit'' @
        [CHR 0x0A]))
   \<and> startExit ''/data'' True False ''boom'' (Some 1) None startedMinikube =
       (Rejected (ProcessFailure ''starting minikube'' (Some 1) ''boom''),
        clear (setState ERROR startedMinikube))"
proof -
  have boom: "regexExec downgradePattern ''boom'' = None"
    by code_simp
  have perms: "\<not> permsMsgOf (exitsWith 1 err)" for err
    by (simp add: exitsWith_def permsMsgOf_def)
  have run: "exitCode (exitsWith 1 err) = Some 1" "exitSignal (exitsWith 1 err) = None"
    "stderrData (exitsWith 1 err) = err" for err
    by (simp_all add: exitsWith_def)
  have stopped: "internalState (newMinikube exampleSettings) = STOPPED"
    by (simp add: newMinikube_def)
  have boomtext: "errorMessageOf (exitsWith 1 [''bo'', ''om'']) = ''boom''"
    by (simp add: errorMessageOf_concat run)
  have a: "fst (start ''/data'' (exitsWith 1 [''bo'', ''om'']) None (newMinikube exampleSettings))
             = Some (ProcessFailure ''starting minikube'' (Some 1)
                      (customizeMinikubeMessage ''/data'' ''boom''))
           \<and> internalState (snd (start ''/data'' (exitsWith 1 [''bo'', ''om'']) None
                                   (newMinikube exampleSettings))) = ERROR"
    using start_failure_message
        [where m = "newMinikube exampleSettings" and r = "exitsWith 1 [''bo'', ''om'']"
           and home = "''/data''" and again = None and nested = False,
         THEN conjunct2, THEN conjunct2, THEN conjunct1]
      perms stopped
    by (simp add: run)
  have b: "customizeMinikubeMessage ''/data'' ''boom'' = ''boom''"
    using start_failure_message
        [where m = "newMinikube exampleSettings" and r = "exitsWith 1 [''bo'', ''om'']"
           and home = "''/data''" and again = None and nested = False,
         THEN conjunct2, THEN conjunct2, THEN conjunct2]
      perms boom
    by (simp add: run)
  have c: "fst (start ''/Users/me/Library/Application Support/rancher-desktop''
            (exitsWith 1 downgradeStderr) None (newMinikube exampleSettings)) =
     Some (ProcessFailure ''starting minikube'' (Some 1)
       (customizeMinikubeMessage ''/Users/me/Library/Application Support/rancher-desktop''
          (concat downgradeStderr)))"
    using start_failure_message
        [where m = "newMinikube exampleSettings" and r = "exitsWith 1 downgradeStderr"
           and home = "''/Users/me/Library/Application Support/rancher-desktop''"
           and again = None and nested = False,
         THEN conjunct2, THEN conjunct2, THEN conjunct1]
      perms stopped
    by (simp add: run)
  have d: "startExit ''/data'' True False ''boom'' (Some 1) None startedMinikube =
       (Rejected (ProcessFailure ''starting minikube'' (Some 1)
                    (customizeMinikubeMessage ''/data'' ''boom'')),
        clear (setState ERROR startedMinikube))"
    using start_failure_message
        [where m = startedMinikube and r = "exitsWith 1 [''bo'', ''om'']"
           and home = "''/data''" and again = None and nested = True,
         THEN conjunct1]
      perms
    by (simp add: run boomtext)
  show ?thesis
    using a b c d boom
    by (simp only: downgradeStderr_rewritten simp_thms)
qed

subsection \<open>The client reference in every reachable state\<close>

lemma emit_fields [simp]:
  "internalState (emit e m) = internalState m"
  "client (emit e m) = client m"
  "current (emit e m) = current m"
  "currentType (emit e m) = currentType m"
  by (simp_all add: emit_def)

lemma onSettingsChanged_fields [simp]:
  "internalState (onSettingsChanged k m) = internalState m"
  "client (onSettingsChanged k m) = client m"
  "current (onSettingsChanged k m) = current m"
  "currentType (onSettingsChanged k m) = currentType m"
  by (simp_all add: onSettingsChanged_def)

lemma exec_fields [simp]:
  "internalState (exec args m) = internalState m"
  "client (exec args m) = client m"
  "currentType (exec args m) = currentType m"
  by (simp_all add: exec_def)

lemma step_lockOk:
  assumes "step home s s'" and "lockOk s"
  shows "lockOk s'"
  using assms
proof (induction rule: step.induct)
  case (start_exited nested permsMsg err code sig m out m' pending)
  then show ?case
    by (auto simp: lockOk_def startExit_def afterStartExit_def split: if_splits)
next
  case (stop_called m m' spawned)
  then show ?case by (auto simp: lockOk_def stopCall_def split: if_splits)
next
  case (reset_called m m' waiting)
  then show ?case by (auto simp: lockOk_def resetCall_def split: if_splits)
next
  case (reset_exec_ended k e m m' waiting thrown)
  then show ?case
    by (auto simp: lockOk_def resetAfterExec_def resetCatch_def resetFinish_def
        split: if_splits option.splits)
qed (auto simp: lockOk_def startFinish_def stopExit_def delCall_def delExit_def Let_def
    split: if_splits Phase.splits)

lemma reachable_lockOk: "reachable home s \<Longrightarrow> lockOk s"
proof (induction rule: reachable.induct)
  case (initial k)
  show ?case by (simp add: lockOk_def newMinikube_def)
next
  case (after_step s s')
  then show ?case using step_lockOk by blast
qed

lemma step_clientInv:
  assumes "step home s s'" and "clientInv s"
  shows "clientInv s'"
  using assms
proof (induction rule: step.induct)
  case (start_exited nested permsMsg err code sig m out m' pending)
  then show ?case
    by (auto simp: clientInv_def startExit_def afterStartExit_def split: if_splits)
next
  case (stop_called m m' spawned)
  then show ?case by (auto simp: clientInv_def stopCall_def split: if_splits)
next
  case (reset_called m m' waiting)
  then show ?case by (auto simp: clientInv_def resetCall_def split: if_splits)
next
  case (reset_exec_ended k e m m' waiting thrown)
  then show ?case
    by (auto simp: clientInv_def resetAfterExec_def resetCatch_def resetFinish_def
        split: if_splits option.splits)
qed (auto simp: clientInv_def startFinish_def stopExit_def delCall_def delExit_def Let_def
    split: if_splits)

lemma reachable_clientInv: "reachable home s \<Longrightarrow> clientInv s"
proof (induction rule: reachable.induct)
  case (initial k)
  show ?case by (simp add: clientInv_def newMinikube_def)
next
  case (after_step s s')
  then show ?case using step_clientInv by blast
qed

lemma reachable_startedWithoutClient: "reachable ''/data'' (startedWithoutClient, StartCont)"
proof -
  let ?m0 = "newMinikube exampleSettings"
  have a: "reachable ''/data'' (?m0, Idle)"
    by (rule reachable.initial)
  have "step ''/data'' (?m0, Idle)
          (snd (startCall False ?m0), StartProc False (fst (startCall False ?m0) = None) False [])"
    by (rule step.start_called) (simp add: newMinikube_def)
  then have b: "reachable ''/data'' (snd (startCall False ?m0), StartProc False True False [])"
    using a by (auto simp: startCall_eq newMinikube_def dest: reachable.after_step)
  have "step ''/data'' (snd (startCall False ?m0), StartProc False True False [])
          (startedWithoutClient, afterStartExit False True Resolved)"
    by (rule step.start_exited [where code = "Some 0" and sig = None])
      (simp add: startedWithoutClient_def startExit_def)
  then show ?thesis
    using b by (auto simp: afterStartExit_def dest: reachable.after_step)
qed

lemma reachable_startedMinikube: "reachable ''/data'' (startedMinikube, Idle)"
proof -
  have "step ''/data'' (startedWithoutClient, StartCont) (startFinish startedWithoutClient, Idle)"
    by (rule step.start_continued)
  moreover have "startFinish startedWithoutClient = startedMinikube"
    by (simp add: startedMinikube_def start_exit0 exitsWith_def startAfterAwait_def
        startCall_eq newMinikube_def startedWithoutClient_def startExit_def)
  ultimately show ?thesis
    using reachable_startedWithoutClient by (auto dest: reachable.after_step)
qed

lemma failedMinikube_eq:
  "failedMinikube = clear (setState ERROR (snd (startCall False (newMinikube exampleSettings))))"
  by (simp add: failedMinikube_def start_def startExit_failure exitsWith_def permsMsgOf_def
      startAfterAwait_def settle_def startCall_eq newMinikube_def)

lemma reachable_failedMinikube: "reachable ''/data'' (failedMinikube, Idle)"
proof -
  let ?m0 = "newMinikube exampleSettings"
  have a: "reachable ''/data'' (?m0, Idle)"
    by (rule reachable.initial)
  have "step ''/data'' (?m0, Idle)
          (snd (startCall False ?m0), StartProc False (fst (startCall False ?m0) = None) False [])"
    by (rule step.start_called) (simp add: newMinikube_def)
  then have b: "reachable ''/data'' (snd (startCall False ?m0), StartProc False True False [])"
    using a by (auto simp: startCall_eq newMinikube_def dest: reachable.after_step)
  have "step ''/data'' (snd (startCall False ?m0), StartProc False True False [])
          (failedMinikube,
           afterStartExit False True (Rejected (ProcessFailure ''starting minikube'' (Some 1) [])))"
    by (rule step.start_exited [where code = "Some 1" and sig = None])
      (simp add: failedMinikube_eq startExit_def customizeMinikubeMessage_unrelated)
  then show ?thesis
    using b by (auto simp: afterStartExit_def dest: reachable.after_step)
qed

lemma restartedAfterError_eq:
  "restartedAfterError = clear (setState STARTED (snd (startCall False failedMinikube)))"
  by (simp add: restartedAfterError_def start_exit0 exitsWith_def startAfterAwait_def
      startCall_eq failedMinikube_eq)

lemma reachable_restartedAfterError: "reachable ''/data'' (restartedAfterError, Idle)"
proof -
  have free: "currentType failedMinikube = None"
    by (simp add: failedMinikube_eq)
  have "step ''/data'' (failedMinikube, Idle)
          (snd (startCall False failedMinikube),
           StartProc False (fst (startCall False failedMinikube) = None) False [])"
    by (rule step.start_called [OF free])
  then have b: "reachable ''/data''
      (snd (startCall False failedMinikube), StartProc False False False [])"
    using reachable_failedMinikube
    by (auto simp: startCall_eq failedMinikube_eq dest: reachable.after_step)
  have "step ''/data'' (snd (startCall False failedMinikube), StartProc False False False [])
          (restartedAfterError, afterStartExit False False Resolved)"
    by (rule step.start_exited [where code = "Some 0" and sig = None])
      (simp add: restartedAfterError_eq startExit_def)
  then show ?thesis
    using b by (auto simp: afterStartExit_def dest: reachable.after_step)
qed

lemma reachable_resettingMinikube: "reachable ''/data'' (resettingMinikube, ResetExec 0)"
proof -
  have "step ''/data'' (startedMinikube, Idle)
          (resettingMinikube, if True then ResetExec 0 else Idle)"
    by (rule step.reset_called)
      (simp_all add: startedMinikube_eq resettingMinikube_def resetCall_def)
  then show ?thesis
    using reachable_startedMinikube by (auto dest: reachable.after_step)
qed

text \<open>
  C1, as the claim states it, fails in the direction "state \<open>STARTED\<close> implies a client".
  Two reachable states are \<open>STARTED\<close> without a client: the state right after the \<open>exit\<close>
  handler of a successful first \<open>start()\<close>, where \<open>state-changed(STARTED)\<close> has been
  emitted and the continuation that constructs the client is still due; and the state at
  rest, no operation in flight, after \<open>start()\<close> failed with exit code 1 and a second
  \<open>start()\<close>, rejected at line 208 because the state was \<open>ERROR\<close>, spawned a child all the
  same that exited with code 0.
\<close>

theorem started_without_client:
  "reachable ''/data'' (startedWithoutClient, StartCont)
   \<and> internalState startedWithoutClient = STARTED
   \<and> client startedWithoutClient = None
   \<and> reachable ''/data'' (restartedAfterError, Idle)
   \<and> internalState restartedAfterError = STARTED
   \<and> client restartedAfterError = None
   \<and> currentType restartedAfterError = None"
  using reachable_startedWithoutClient reachable_restartedAfterError
  by (simp add: startedWithoutClient_def restartedAfterError_eq startExit_def
      failedMinikube_eq newMinikube_def)

text \<open>
  C1, amended. In every reachable state: a client reference exists only if the state is
  \<open>STARTING\<close> or \<open>STARTED\<close> (never in \<open>STOPPED\<close>, \<open>STOPPING\<close>, \<open>ERROR\<close>); setting the state
  to \<open>STOPPING\<close>, \<open>STOPPED\<close> or \<open>ERROR\<close> emits the notification, then destroys the client
  there is, and clears the reference; and when \<open>reset()\<close> ends, at once or after an
  \<open>exec\<close>, in a state other than \<open>STARTING\<close> and \<open>STARTED\<close>, no client reference remains.
\<close>

theorem client_only_while_starting_or_started:
  assumes "reachable home (m, ph)"
  shows "(client m \<noteq> None \<longrightarrow> internalState m = STARTING \<or> internalState m = STARTED)
       \<and> (\<forall>v. v = STOPPING \<or> v = STOPPED \<or> v = ERROR \<longrightarrow>
             client (setState v m) = None
             \<and> effects (setState v m) =
                 effects m @ StateChanged v #
                 (case client m of None \<Rightarrow> [] | Some c \<Rightarrow> [ClientDestroyed c]))
       \<and> (ph = Idle \<and> \<not> snd (resetCall m)
             \<and> internalState (fst (resetCall m)) \<noteq> STARTING
             \<and> internalState (fst (resetCall m)) \<noteq> STARTED
           \<longrightarrow> client (fst (resetCall m)) = None)
       \<and> (\<forall>k e. ph = ResetExec k \<and> \<not> fst (snd (resetAfterExec k e m))
             \<and> internalState (fst (resetAfterExec k e m)) \<noteq> STARTING
             \<and> internalState (fst (resetAfterExec k e m)) \<noteq> STARTED
           \<longrightarrow> client (fst (resetAfterExec k e m)) = None)"
proof -
  have inv: "clientInv (m, ph)"
    using assms by (rule reachable_clientInv)
  have one: "client m \<noteq> None \<longrightarrow> internalState m = STARTING \<or> internalState m = STARTED"
    using inv by (simp add: clientInv_def)
  have two: "\<forall>v. v = STOPPING \<or> v = STOPPED \<or> v = ERROR \<longrightarrow>
      client (setState v m) = None
      \<and> effects (setState v m) =
          effects m @ StateChanged v #
          (case client m of None \<Rightarrow> [] | Some c \<Rightarrow> [ClientDestroyed c])"
    by simp
  have three: "ph = Idle \<and> \<not> snd (resetCall m)
      \<and> internalState (fst (resetCall m)) \<noteq> STARTING
      \<and> internalState (fst (resetCall m)) \<noteq> STARTED
      \<longrightarrow> client (fst (resetCall m)) = None"
    using one by (auto simp: resetCall_def split: if_splits)
  have four: "\<forall>k e. ph = ResetExec k \<and> \<not> fst (snd (resetAfterExec k e m))
      \<and> internalState (fst (resetAfterExec k e m)) \<noteq> STARTING
      \<and> internalState (fst (resetAfterExec k e m)) \<noteq> STARTED
      \<longrightarrow> client (fst (resetAfterExec k e m)) = None"
    using inv
    by (auto simp: clientInv_def resetAfterExec_def resetCatch_def resetFinish_def
        split: option.splits if_splits)
  show ?thesis using one two three four by blast
qed

theorem client_only_while_starting_or_started_witness:
  "reachable ''/data'' (resettingMinikube, ResetExec 0)
   \<and> client resettingMinikube = Some 0
   \<and> internalState resettingMinikube = STARTING
   \<and> client (setState STOPPING resettingMinikube) = None
   \<and> effects (setState STOPPING resettingMinikube) =
       effects resettingMinikube @ [StateChanged STOPPING, ClientDestroyed 0]
   \<and> fst (snd (resetAfterExec 0 ExecThrows resettingMinikube)) = False
   \<and> internalState (fst (resetAfterExec 0 ExecThrows resettingMinikube)) = ERROR
   \<and> client (fst (resetAfterExec 0 ExecThrows resettingMinikube)) = None"
  using client_only_while_starting_or_started [OF reachable_resettingMinikube]
    reachable_resettingMinikube
  by (simp add: resettingMinikube_def resetCall_def startedMinikube_eq resetAfterExec_def
      execFailure_def resetCatch_def)

subsection \<open>start as a path of the transition system\<close>

lemma stdout_steps:
  assumes "reachable home (m, StartProc nested pending permsMsg err)"
  shows "reachable home
           (m, StartProc nested pending (foldl (\<lambda>p chunk. onStdout chunk p) permsMsg chunks) err)"
  using assms
proof (induction chunks arbitrary: permsMsg)
  case Nil
  then show ?case by simp
next
  case (Cons chunk chunks)
  have "reachable home (m, StartProc nested pending (onStdout chunk permsMsg) err)"
    using Cons.prems step.start_stdout by (rule reachable.after_step)
  then show ?case
    using Cons.IH by simp
qed

lemma stderr_steps:
  assumes "reachable home (m, StartProc nested pending permsMsg err)"
  shows "reachable home
           (m, StartProc nested pending permsMsg (foldl (\<lambda>e chunk. onStderr chunk e) err chunks))"
  using assms
proof (induction chunks arbitrary: err)
  case Nil
  then show ?case by simp
next
  case (Cons chunk chunks)
  have "reachable home (m, StartProc nested pending permsMsg (onStderr chunk err))"
    using Cons.prems step.start_stderr by (rule reachable.after_step)
  then show ?case
    using Cons.IH by simp
qed

lemma child_run_steps:
  assumes "reachable home (m, StartProc nested pending False [])"
    and "startExit home nested (permsMsgOf r) (errorMessageOf r) (exitCode r) (exitSignal r) m
           = (out, m')"
  shows "reachable home (m', afterStartExit nested pending out)"
proof -
  have "reachable home (m, StartProc nested pending (permsMsgOf r) [])"
    using stdout_steps [OF assms(1), of "stdoutData r"] by (simp add: permsMsgOf_def)
  then have "reachable home (m, StartProc nested pending (permsMsgOf r) (errorMessageOf r))"
    using stderr_steps [of home m nested pending "permsMsgOf r" "[]" "stderrData r"]
    by (simp add: errorMessageOf_def)
  then show ?thesis
    using step.start_exited [OF assms(2)] by (rule reachable.after_step)
qed

text \<open>
  The function \<open>start\<close> composes the pieces the way the transition system runs them:
  from an idle reachable state, the controller that \<open>start\<close> returns is reachable and at
  rest.
\<close>

lemma start_reachable:
  assumes "reachable home (m, Idle)"
  shows "reachable home (snd (start home r again m), Idle)"
proof -
  let ?early = "fst (startCall False m)"
  let ?m1 = "snd (startCall False m)"
  let ?pending = "?early = None"
  have free: "currentType m = None"
    using reachable_lockOk [OF assms] by (simp add: lockOk_def)
  have r1: "reachable home (?m1, StartProc False ?pending False [])"
    using assms step.start_called [OF free] by (rule reachable.after_step)
  obtain out m2 where ex:
    "startExit home False (permsMsgOf r) (errorMessageOf r) (exitCode r) (exitSignal r) ?m1
       = (out, m2)"
    by (cases "startExit home False (permsMsgOf r) (errorMessageOf r) (exitCode r)
                 (exitSignal r) ?m1") auto
  have r2: "reachable home (m2, afterStartExit False ?pending out)"
    using r1 ex by (rule child_run_steps)
  have unfold: "start home r again m =
      (case out of
         Resolved \<Rightarrow> startAfterAwait (settle ?early None) m2
       | Rejected f \<Rightarrow> startAfterAwait (settle ?early (Some f)) m2
       | Escalate \<Rightarrow>
           (case again of
              None \<Rightarrow> startAfterAwait (settle ?early (Some SudoFailure)) (clear m2)
            | Some r' \<Rightarrow>
                (let (inner, m3) = startNested home r' m2
                 in startAfterAwait (settle ?early inner) (clear m3))))"
    using ex
    by (cases "startCall False m") (simp add: start_def split: Outcome.splits option.splits)
  show ?thesis
  proof (cases out)
    case Resolved
    show ?thesis
    proof (cases ?early)
      case None
      then have "reachable home (m2, StartCont)"
        using r2 Resolved by (simp add: afterStartExit_def)
      then have "reachable home (startFinish m2, Idle)"
        using step.start_continued by (rule reachable.after_step)
      then show ?thesis
        using None Resolved unfold by (simp add: settle_def startAfterAwait_def)
    next
      case (Some f)
      then show ?thesis
        using r2 Resolved unfold by (simp add: settle_def startAfterAwait_def afterStartExit_def)
    qed
  next
    case (Rejected f)
    then show ?thesis
      using r2 unfold
      by (cases ?early) (simp_all add: settle_def startAfterAwait_def afterStartExit_def)
  next
    case Escalate
    then have sudo: "reachable home (m2, StartSudo ?pending)"
      using r2 by (simp add: afterStartExit_def)
    show ?thesis
    proof (cases again)
      case None
      have "reachable home (clear m2, Idle)"
        using sudo step.sudo_failed by (rule reachable.after_step)
      then show ?thesis
        using None Escalate unfold
        by (cases ?early) (simp_all add: settle_def startAfterAwait_def)
    next
      case (Some r')
      let ?m3 = "snd (startCall True m2)"
      have n1: "reachable home (?m3, StartProc True ?pending False [])"
        using sudo step.sudo_granted by (rule reachable.after_step)
      obtain out' m4 where ex':
        "startExit home True (permsMsgOf r') (errorMessageOf r') (exitCode r') (exitSignal r') ?m3
           = (out', m4)"
        by (cases "startExit home True (permsMsgOf r') (errorMessageOf r') (exitCode r')
                     (exitSignal r') ?m3") auto
      have n2: "reachable home (m4, afterStartExit True ?pending out')"
        using n1 ex' by (rule child_run_steps)
      have noesc: "out' \<noteq> Escalate"
        using ex' by (auto simp: startExit_def split: if_splits)
      have nested: "startNested home r' m2 =
          startAfterAwait (case out' of Rejected f \<Rightarrow> Some f | _ \<Rightarrow> None) m4"
        using ex'
        by (cases "startCall True m2")
           (simp add: startNested_def startCall_eq settle_def split: Outcome.splits)
      show ?thesis
      proof (cases out')
        case Escalate
        then show ?thesis using noesc by simp
      next
        case Resolved
        then have "reachable home (m4, StartNestedCont True ?pending)"
          using n2 by (simp add: afterStartExit_def)
        then have n3: "reachable home
            (clear (startFinish m4), if ?pending then StartCont else Idle)"
          using step.nested_resolved by (rule reachable.after_step)
        show ?thesis
        proof (cases ?early)
          case None
          then have "reachable home (clear (startFinish m4), StartCont)"
            using n3 by simp
          then have "reachable home (startFinish (clear (startFinish m4)), Idle)"
            using step.start_continued by (rule reachable.after_step)
          then show ?thesis
            using None \<open>again = Some r'\<close> \<open>out = Escalate\<close> Resolved unfold nested
            by (simp add: settle_def startAfterAwait_def)
        next
          case (Some f)
          then show ?thesis
            using n3 \<open>again = Some r'\<close> \<open>out = Escalate\<close> Resolved unfold nested
            by (simp add: settle_def startAfterAwait_def)
        qed
      next
        case (Rejected f')
        then have "reachable home (m4, StartNestedCont False ?pending)"
          using n2 by (simp add: afterStartExit_def)
        then have "reachable home (clear m4, Idle)"
          using step.nested_rejected by (rule reachable.after_step)
        then show ?thesis
          using Some \<open>out = Escalate\<close> Rejected unfold nested
          by (cases ?early) (simp_all add: settle_def startAfterAwait_def)
      qed
    qed
  qed
qed

section \<open>Properties of the client\<close>

subsection \<open>createForwardingServer and forwardPort\<close>

lemma map_of_assign: "map_of (assign k v fm) k' = (if k' = k then Some v else map_of fm k')"
  by (induction fm) auto

lemma fmGet_fmSet: "fmGet (fmSet fm ns ep p s) ns ep p = Some s"
  by (simp add: fmGet_def fmSet_def map_of_assign)

lemma emitServiceChanged_fields:
  "servers (snd (emitServiceChanged c)) = servers c"
  "sockets (snd (emitServiceChanged c)) = sockets c"
  "nextServer (snd (emitServiceChanged c)) = nextServer c"
  by (simp_all add: emitServiceChanged_def split: sum.splits)

lemma createForwardingServerBegin_existing:
  "fmGet (servers c) (Some ns) ep p = Some s \<Longrightarrow>
   createForwardingServerBegin ns ep p c = (c, None)"
  by (simp add: createForwardingServerBegin_def)

lemma createForwardingServerBegin_new:
  "fmGet (servers c) (Some ns) ep p = None \<Longrightarrow>
   createForwardingServerBegin ns ep p c =
     (c\<lparr> sockets := (sockets c)(nextServer c \<mapsto> Created), nextServer := Suc (nextServer c),
         servers := fmSet (servers c) (Some ns) ep p (nextServer c) \<rparr>,
      Some (nextServer c))"
  by (simp add: createForwardingServerBegin_def Let_def)

lemma createForwardingServer_nextServer:
  "nextServer (snd (createForwardingServer ns ep p ev c)) =
     (if fmGet (servers c) (Some ns) ep p = None then Suc (nextServer c) else nextServer c)"
  by (auto simp: createForwardingServer_def createForwardingServerBegin_new
      createForwardingServerBegin_existing createForwardingServerEnd_def
      emitServiceChanged_fields closeServer_def Let_def split: ListenerEvent.splits)




text \<open>
  C5: \<open>createForwardingServer\<close> does nothing when the table has a server for the triple
  (it returns the client as it is, whatever a listener would report). So when
  \<open>forwardPort\<close> has returned a local port for a triple that had no entry, a second
  \<open>forwardPort\<close> with the same arguments on the resulting client returns the same port,
  leaves the client as it is, and one listener has been created in all.
\<close>

theorem forwardPort_twice_same_port:
  assumes "fmGet (servers c) (Some ns) ep p = None"
    and "forwardPort ns ep p ev c = (Inr (Some l), c1)"
  shows "forwardPort ns ep p ev' c1 = (Inr (Some l), c1)
       \<and> createForwardingServer ns ep p ev' c1 = (Inr (), c1)
       \<and> nextServer c1 = Suc (nextServer c)
       \<and> (\<forall>c2 s. fmGet (servers c2) (Some ns) ep p = Some s \<longrightarrow>
             createForwardingServer ns ep p ev' c2 = (Inr (), c2))"
proof -
  from assms(2) obtain u s where
      cfs: "createForwardingServer ns ep p ev c = (Inr u, c1)"
    and get: "fmGet (servers c1) (Some ns) ep p = Some s"
    and addr: "address c1 s = Some l"
    by (auto simp: forwardPort_def split: prod.splits sum.splits option.splits)
  have noop: "createForwardingServer ns ep p ev' c2 = (Inr (), c2)"
    if "fmGet (servers c2) (Some ns) ep p = Some s2" for c2 s2
    using that by (simp add: createForwardingServer_def createForwardingServerBegin_existing)
  have "nextServer c1 = Suc (nextServer c)"
    using createForwardingServer_nextServer [of ns ep p ev c] cfs assms(1) by simp
  then show ?thesis
    using noop [OF get] noop get addr by (simp add: forwardPort_def)
qed

theorem forwardPort_twice_same_port_witness:
  "fmGet (servers (newKubeClient [webService])) (Some ''default'') ''web'' (Num 80) = None
   \<and> fst (forwardPort ''default'' ''web'' (Num 80) (EvListening 50123)
            (newKubeClient [webService])) = Inr (Some 50123)
   \<and> fst (forwardPort ''default'' ''web'' (Num 80) (EvListening 50999)
            (snd (forwardPort ''default'' ''web'' (Num 80) (EvListening 50123)
                    (newKubeClient [webService])))) = Inr (Some 50123)
   \<and> nextServer (snd (forwardPort ''default'' ''web'' (Num 80) (EvListening 50123)
                        (newKubeClient [webService]))) = 1"
proof -
  let ?c = "newKubeClient [webService]"
  let ?c1 = "snd (forwardPort ''default'' ''web'' (Num 80) (EvListening 50123) ?c)"
  have none: "fmGet (servers ?c) (Some ''default'') ''web'' (Num 80) = None"
    by (simp add: newKubeClient_def fmGet_def)
  have first: "fst (forwardPort ''default'' ''web'' (Num 80) (EvListening 50123) ?c)
      = Inr (Some 50123)"
    by (simp add: forwardPort_def createForwardingServer_def createForwardingServerBegin_def
        createForwardingServerEnd_def emitServiceChanged_def listServices_def servicesList_def
        serviceEntry_def address_def newKubeClient_def webService_def fmGet_def fmSet_def
        forwardKey_def magnitudeToString_def natToString.simps Let_def)
  then have run: "forwardPort ''default'' ''web'' (Num 80) (EvListening 50123) ?c
      = (Inr (Some 50123), ?c1)"
    by (simp add: prod_eq_iff)
  show ?thesis
    using none first forwardPort_twice_same_port [OF none run, of "EvListening 50999"]
    by (simp add: newKubeClient_def)
qed

subsection \<open>listServices and a listener without an address\<close>

lemma mapThrowing_Inl:
  "mapThrowing f xs = Inl e \<Longrightarrow> \<exists>x \<in> set xs. f x = Inl e"
  by (induction xs arbitrary: e) (auto split: sum.splits)

lemma mapThrowing_throws:
  "x \<in> set xs \<Longrightarrow> f x = Inl e \<Longrightarrow> \<exists>e'. mapThrowing f xs = Inl e'"
  by (induction xs) (auto split: sum.splits)

lemma serviceEntry_Inl: "serviceEntry c s p = Inl e \<Longrightarrow> e = TypeError"
  by (auto simp: serviceEntry_def Let_def split: option.splits)

text \<open>
  C9: if the services that \<open>listServices\<close> goes through (the list the cache returns
  for the namespace asked for) include a port whose triple has an entry in the table, and the listener of that entry has no address (it is created
  and not yet listening, or closed), then \<open>listServices\<close> throws a \<open>TypeError\<close>. And
  \<open>createForwardingServer\<close> opens that window: when it registers a new listener, the
  entry is in the table and the listener has no address until it reports \<open>listening\<close>.
\<close>

theorem listServices_throws_on_unbound_listener:
  assumes "servicesList c namespace = Some services"
    and "service \<in> set services" and "port \<in> set (specPorts service)"
    and "fmGet (servers c) (metadataNamespace service)
           (case metadataName service of None \<Rightarrow> [] | Some n \<Rightarrow> n) (targetPort port)
         = Some server"
    and "address c server = None"
  shows "listServices c namespace = Inl TypeError
       \<and> (\<forall>c0 ns ep p. fmGet (servers c0) (Some ns) ep p = None \<longrightarrow>
             snd (createForwardingServerBegin ns ep p c0) = Some (nextServer c0)
             \<and> fmGet (servers (fst (createForwardingServerBegin ns ep p c0))) (Some ns) ep p
                 = Some (nextServer c0)
             \<and> address (fst (createForwardingServerBegin ns ep p c0)) (nextServer c0) = None)"
proof -
  have entry: "serviceEntry c service port = Inl TypeError"
    using assms(4,5) by (simp add: serviceEntry_def Let_def)
  have "\<exists>e. mapThrowing (serviceEntry c service) (specPorts service) = Inl e"
    by (rule mapThrowing_throws [where f = "serviceEntry c service", OF assms(3) entry])
  then obtain e where inner: "mapThrowing (serviceEntry c service) (specPorts service) = Inl e"
    by (rule exE)
  have "\<exists>e'. mapThrowing (\<lambda>s. mapThrowing (serviceEntry c s) (specPorts s))
             services = Inl e'"
    by (rule mapThrowing_throws
          [where f = "\<lambda>s. mapThrowing (serviceEntry c s) (specPorts s)", OF assms(2) inner])
  then obtain e' where outer:
    "mapThrowing (\<lambda>s. mapThrowing (serviceEntry c s) (specPorts s)) services = Inl e'"
    by (rule exE)
  from mapThrowing_Inl
         [where f = "\<lambda>s. mapThrowing (serviceEntry c s) (specPorts s)", OF outer]
  obtain s' where
    "mapThrowing (serviceEntry c s') (specPorts s') = Inl e'"
    by (rule bexE)
  from mapThrowing_Inl [where f = "serviceEntry c s'", OF this]
  obtain p' where "serviceEntry c s' p' = Inl e'"
    by (rule bexE)
  then have "e' = TypeError"
    by (rule serviceEntry_Inl)
  then have thrown: "listServices c namespace = Inl TypeError"
    using outer by (simp add: listServices_def assms(1))
  have window: "snd (createForwardingServerBegin ns ep p c0) = Some (nextServer c0)
      \<and> fmGet (servers (fst (createForwardingServerBegin ns ep p c0))) (Some ns) ep p
          = Some (nextServer c0)
      \<and> address (fst (createForwardingServerBegin ns ep p c0)) (nextServer c0) = None"
    if "fmGet (servers c0) (Some ns) ep p = None" for c0 ns ep p
    using that by (simp add: createForwardingServerBegin_new fmGet_fmSet address_def)
  show ?thesis
    using thrown window by blast
qed

theorem listServices_throws_on_unbound_listener_witness:
  "servicesList
       (fst (createForwardingServerBegin ''default'' ''web'' (Num 80)
               (newKubeClient [webService]))) None = Some [webService]
   \<and> fmGet (servers (fst (createForwardingServerBegin ''default'' ''web'' (Num 80)
                            (newKubeClient [webService]))))
        (Some ''default'') ''web'' (Num 80) = Some 0
   \<and> address (fst (createForwardingServerBegin ''default'' ''web'' (Num 80)
                     (newKubeClient [webService]))) 0 = None
   \<and> listServices (fst (createForwardingServerBegin ''default'' ''web'' (Num 80)
                          (newKubeClient [webService]))) None = Inl TypeError"
proof -
  let ?c = "fst (createForwardingServerBegin ''default'' ''web'' (Num 80)
                   (newKubeClient [webService]))"
  let ?port = "\<lparr> portName = Some ''http'', targetPort = Num 80 \<rparr>"
  have svcs: "servicesList ?c None = Some [webService]"
    by (simp add: servicesList_def createForwardingServerBegin_def newKubeClient_def fmGet_def
        Let_def)
  have svc: "webService \<in> set [webService]"
    by simp
  have port: "?port \<in> set (specPorts webService)"
    by (simp add: webService_def)
  have get: "fmGet (servers ?c) (metadataNamespace webService)
      (case metadataName webService of None \<Rightarrow> [] | Some n \<Rightarrow> n) (targetPort ?port) = Some 0"
    by (simp add: createForwardingServerBegin_def newKubeClient_def fmGet_def fmSet_def
        webService_def Let_def)
  have addr: "address ?c 0 = None"
    by (simp add: createForwardingServerBegin_def newKubeClient_def fmGet_def address_def
        Let_def)
  show ?thesis
    using svcs get addr
      listServices_throws_on_unbound_listener [OF svcs svc port get addr, THEN conjunct1]
    by (simp add: webService_def)
qed

text \<open>
  The namespace given to \<open>listServices\<close>: one that the cache has no array for makes it
  throw, the empty string stands for no namespace, and a namespace with services lists
  those.
\<close>

lemma listServices_by_namespace:
  "listServices (newKubeClient [webService]) (Some ''kube-system'') = Inl TypeError
   \<and> listServices (newKubeClient [webService]) (Some []) =
       listServices (newKubeClient [webService]) None
   \<and> listServices (newKubeClient [webService]) (Some ''default'') =
       Inr [\<lparr> entryNamespace = Some ''default'', entryName = ''web'',
               entryPortName = Some ''http'', entryPort = Num 80, listenPort = None \<rparr>]"
  by (simp add: listServices_def servicesList_def newKubeClient_def webService_def
      serviceEntry_def fmGet_def)

subsection \<open>Numbers as text and back\<close>

lemma natToString_digits: "natToString n \<noteq> [] \<and> list_all (inClass Digit) (natToString n)"
proof (induction n rule: natToString.induct)
  case (1 n)
  have d: "inClass Digit (''0123456789'' ! m)" if "m < 10" for m
  proof -
    from that have "m \<in> {0, 1, 2, 3, 4, 5, 6, 7, 8, 9}" by auto
    then show ?thesis by auto
  qed
  show ?case
  proof (cases "n < 10")
    case True
    then show ?thesis
      using d [of n] by (simp add: natToString.simps [of n] del: inClass.simps)
  next
    case False
    then show ?thesis
      using 1 d [of "n mod 10"] by (simp add: natToString.simps [of n] del: inClass.simps)
  qed
qed

lemma magnitudeToString_digits:
  assumes "v < 10 ^ 21"
  shows "magnitudeToString v \<noteq> [] \<and> list_all (inClass Digit) (magnitudeToString v)"
proof (cases "v < 2 ^ 53")
  case True
  then show ?thesis
    using natToString_digits [of v] by (simp add: magnitudeToString_def del: inClass.simps)
next
  case False
  obtain s j where sj: "shortestDigits v (length (natToString v)) = (s, j)"
    by (cases "shortestDigits v (length (natToString v))") auto
  have zeros: "list_all (inClass Digit) (replicate j (CHR ''0''))"
    by (induction j) simp_all
  show ?thesis
    using False assms natToString_digits [of s] zeros
    by (simp add: magnitudeToString_def sj del: inClass.simps)
qed

lemma digit_chars:
  assumes "m < 10"
  shows "digitValue (''0123456789'' ! m) = Some m"
proof -
  from assms have "m \<in> {0, 1, 2, 3, 4, 5, 6, 7, 8, 9}" by auto
  then show ?thesis
    by (auto simp: digitValue_def)
qed

lemma digit_class:
  assumes "inClass Digit c"
  shows "isRadixDigit 10 c" and "\<not> inClass Whitespace c"
    and "c \<noteq> CHR ''-''" and "c \<noteq> CHR ''+''" and "c \<noteq> CHR ''x''" and "c \<noteq> CHR ''X''"
  using assms by (auto simp: isRadixDigit_def digitValue_def)

lemma radixValue_snoc:
  "radixValue r (z @ [c]) = radixValue r z * r + (case digitValue c of None \<Rightarrow> 0 | Some v \<Rightarrow> v)"
  by (simp add: radixValue_def)

text \<open>The digits of a whole number have that number as their value.\<close>

lemma natToString_value: "radixValue 10 (natToString n) = n"
proof (induction n rule: natToString.induct)
  case (1 n)
  show ?case
  proof (cases "n < 10")
    case True
    then show ?thesis
      using digit_chars [of n] by (simp add: natToString.simps [of n] radixValue_def)
  next
    case False
    have m: "n mod 10 < 10" by simp
    show ?thesis
      using False 1 digit_chars [OF m]
      by (simp add: natToString.simps [of n] radixValue_snoc)
  qed
qed

text \<open>\<open>parseInt\<close> of a run of decimal digits is the double nearest to its value.\<close>

lemma parseInt_digits:
  assumes "ds \<noteq> []" and "list_all (inClass Digit) ds"
  shows "parseInt ds = toNumber False (radixValue 10 ds)"
proof -
  have digit: "inClass Digit c" if "c \<in> set ds" for c
    using assms(2) that unfolding list_all_iff by blast
  have radix: "\<forall>c \<in> set ds. isRadixDigit 10 c"
    using digit digit_class(1) by blast
  have letters: "\<forall>c \<in> set ds. c \<noteq> CHR ''x'' \<and> c \<noteq> CHR ''X''"
    using digit digit_class(5,6) by blast
  obtain c cs where s: "ds = c # cs"
    using assms(1) by (cases ds) auto
  have "inClass Digit c"
    using digit unfolding s by simp
  then have c: "\<not> inClass Whitespace c" "c \<noteq> CHR ''-''" "c \<noteq> CHR ''+''"
    by (rule digit_class(2), rule digit_class(3), rule digit_class(4))
  have hex: "take 2 ds \<noteq> ''0x''" "take 2 ds \<noteq> ''0X''"
    using letters unfolding s by (cases cs; simp)+
  have all: "takeWhile (isRadixDigit 10) ds = ds"
    using radix by (simp add: takeWhile_eq_all_conv)
  have s1: "dropWhile (inClass Whitespace) ds = ds"
    unfolding s using c(1) by simp
  have sign: "take 1 ds \<noteq> ''-''" "take 1 ds \<noteq> ''+''"
    unfolding s using c(2,3) by simp_all
  show ?thesis
    unfolding parseInt_def s1 Let_def
    using sign hex assms(1) by (simp add: all)
qed

lemma roundToDouble_small: "n \<le> 2 ^ 53 \<Longrightarrow> roundToDouble n = n"
proof (cases "n < 2 ^ 53")
  case True
  then show ?thesis by (simp add: roundToDouble_def)
next
  case False
  assume "n \<le> 2 ^ 53"
  then have n: "n = 9007199254740992" using False by simp
  show ?thesis
    unfolding n by (simp add: roundToDouble_def bitLength.simps Let_def)
qed

lemma toNumber_small:
  assumes "n \<le> 2 ^ 53"
  shows "toNumber False n = Num (int n)"
proof -
  have "(2::nat) ^ 53 < 2 ^ 1024"
    by (rule power_strict_increasing) simp_all
  with assms have "n < 2 ^ 1024"
    by (rule le_less_trans)
  then show ?thesis
    using roundToDouble_small [OF assms]
    by (simp add: toNumber_def Let_def del: power_strict_increasing_iff)
qed

lemma parseInt_natToString:
  assumes "n \<le> 2 ^ 53"
  shows "parseInt (natToString n) = Num (int n)"
  using natToString_digits [of n] toNumber_small [OF assms]
  by (simp add: parseInt_digits natToString_value del: inClass.simps)

text \<open>
  Some values: a port from \<open>10^21\<close> on is printed with an exponent, the double nearest
  to \<open>10^23\<close> is printed as \<open>1e+23\<close>, and \<open>parseInt\<close> rounds a run of digits beyond
  \<open>2^53\<close>.
\<close>

lemma numberToString_examples:
  "numberToString (Num 80) = ''80''
   \<and> numberToString (Num (- 1)) = ''-1''
   \<and> numberToString (Num 1000000000000000000000) = ''1e+21''
   \<and> numberToString (Num 99999999999999991611392) = ''1e+23''"
  by (simp add: magnitudeToString_def natToString.simps shortestDigits.simps roundToDouble_def
      bitLength.simps Let_def)

lemma parseInt_examples: "parseInt ''1'' = Num 1 \<and> parseInt ''web'' = NaN"
  by (simp add: parseInt_def isRadixDigit_def digitValue_def radixValue_def toNumber_def
      roundToDouble_def Let_def)

lemma parseInt_rounds:
  "parseInt ''9007199254740993'' = Num 9007199254740992
   \<and> parseInt '' -0x1F'' = Num (- 31)
   \<and> parseInt ''1e+21'' = Num 1"
  by (simp add: parseInt_def isRadixDigit_def digitValue_def radixValue_def toNumber_def
      roundToDouble_def bitLength.simps Let_def)

subsection \<open>The matcher on the pattern of the iterator\<close>

lemma consume_Nil [simp]: "consume [] st = st"
  by (cases "openGroup st") (simp_all add: consume_def)

lemma consume_consume [simp]: "consume b (consume a st) = consume (a @ b) st"
  by (cases "openGroup st") (simp_all add: consume_def)

text \<open>
  When what follows a greedy star cannot start with a character of the star's class, the
  star takes the longest run and never gives a character back.
\<close>

lemma greedy_det:
  assumes "\<And>x xs st'. inClass c x \<Longrightarrow> run r (x # xs) st' = None"
  shows "run (Greedy c # r) s st =
         run r (dropWhile (inClass c) s) (consume (takeWhile (inClass c) s) st)"
proof (induction s arbitrary: st)
  case Nil
  show ?case by simp
next
  case (Cons x xs)
  show ?case
  proof (cases "inClass c x")
    case True
    then show ?thesis
      using Cons [of "consume [x] st"] assms [OF True, of xs st]
      by (simp split: option.splits)
  next
    case False
    then show ?thesis by simp
  qed
qed

lemma search_Bos_later: "search (Bos # r) s False = None"
  by (induction s) simp_all

lemma search_Bos:
  "search (Bos # r) s True =
     run r s \<lparr> atStart = True, matched = [], openGroup = None, captures = [] \<rparr>"
  by (cases s) (simp_all add: search_Bos_later split: option.splits)

lemma dropWhile_starts:
  assumes "dropWhile (\<lambda>x. x \<noteq> c) s \<noteq> []"
  shows "dropWhile (\<lambda>x. x \<noteq> c) s = c # tl (dropWhile (\<lambda>x. x \<noteq> c) s)"
  using assms hd_dropWhile [of "\<lambda>x. x \<noteq> c" s]
  by (cases "dropWhile (\<lambda>x. x \<noteq> c) s") auto

lemma take1_dropWhile:
  assumes "dropWhile (\<lambda>x. x \<noteq> c) s \<noteq> []"
  shows "take (Suc 0) (dropWhile (\<lambda>x. x \<noteq> c) s) = [c]"
  using assms hd_dropWhile [of "\<lambda>x. x \<noteq> c" s]
  by (cases "dropWhile (\<lambda>x. x \<noteq> c) s") auto

lemma greedy_until:
  "run (Greedy (NoneOf [c]) # GroupClose # Lit [c] # r) s st =
     (if c \<notin> set s then None
      else run r (tl (dropWhile (\<lambda>x. x \<noteq> c) s))
             (st\<lparr> atStart := False,
                 matched := matched st @ takeWhile (\<lambda>x. x \<noteq> c) s @ [c],
                 openGroup := None,
                 captures := captures st @
                   [case openGroup st of
                      None \<Rightarrow> [] | Some g \<Rightarrow> g @ takeWhile (\<lambda>x. x \<noteq> c) s] \<rparr>))"
proof -
  have cls: "inClass (NoneOf [c]) = (\<lambda>x. x \<noteq> c)"
    by (rule ext) simp
  have eq: "run (Greedy (NoneOf [c]) # GroupClose # Lit [c] # r) s st =
      run (GroupClose # Lit [c] # r) (dropWhile (\<lambda>x. x \<noteq> c) s)
        (consume (takeWhile (\<lambda>x. x \<noteq> c) s) st)"
    using greedy_det [of "NoneOf [c]" "GroupClose # Lit [c] # r" s st]
    by (simp only: cls) simp
  show ?thesis
  proof (cases "c \<in> set s")
    case False
    then have d: "dropWhile (\<lambda>x. x \<noteq> c) s = []"
      by auto
    show ?thesis
      unfolding eq d using False by simp
  next
    case True
    then have "dropWhile (\<lambda>x. x \<noteq> c) s \<noteq> []"
      by auto
    then have t: "take (Suc 0) (dropWhile (\<lambda>x. x \<noteq> c) s) = [c]"
      by (rule take1_dropWhile)
    show ?thesis
      unfolding eq using True t
      by (cases st; cases "openGroup st") (simp_all add: consume_def drop_Suc)
  qed
qed

lemma greedy_digits:
  "run [Greedy Digit, GroupClose, Eos] s st =
     (if list_all (inClass Digit) s
      then Some (st\<lparr> atStart := atStart st \<and> s = [],
                    matched := matched st @ s,
                    openGroup := None,
                    captures := captures st @
                      [case openGroup st of None \<Rightarrow> [] | Some g \<Rightarrow> g @ s] \<rparr>)
      else None)"
proof -
  have eq: "run [Greedy Digit, GroupClose, Eos] s st =
      run [GroupClose, Eos] (dropWhile (inClass Digit) s)
        (consume (takeWhile (inClass Digit) s) st)"
    by (rule greedy_det) simp
  show ?thesis
  proof (cases "list_all (inClass Digit) s")
    case True
    then have d: "dropWhile (inClass Digit) s = []" and t: "takeWhile (inClass Digit) s = s"
      by (simp_all add: list_all_iff del: inClass.simps)
    show ?thesis
      unfolding eq d t using True
      by (cases st; cases "openGroup st") (simp_all add: consume_def del: inClass.simps)
  next
    case False
    then have "dropWhile (inClass Digit) s \<noteq> []"
      by (simp add: list_all_iff del: inClass.simps)
    then show ?thesis
      unfolding eq using False
      by (cases "dropWhile (inClass Digit) s") (simp_all del: inClass.simps)
  qed
qed

text \<open>The three groups of the iterator's pattern, one at a time.\<close>

lemma run_namespace_group:
  "run (GroupOpen # Greedy (NoneOf [c]) # GroupClose # Lit [c] # r) s st =
     (if c \<notin> set s then None
      else run r (tl (dropWhile (\<lambda>x. x \<noteq> c) s))
             (st\<lparr> atStart := False,
                 matched := matched st @ takeWhile (\<lambda>x. x \<noteq> c) s @ [c],
                 openGroup := None,
                 captures := captures st @ [takeWhile (\<lambda>x. x \<noteq> c) s] \<rparr>))"
  by (cases st) (simp add: greedy_until del: run.simps(4))

lemma run_endpoint_group:
  "run (GroupOpen # One (NoneOf [c]) # Greedy (NoneOf [c]) # GroupClose # Lit [c] # r) s st =
     (if c \<notin> set s \<or> hd s = c then None
      else run r (tl (dropWhile (\<lambda>x. x \<noteq> c) s))
             (st\<lparr> atStart := False,
                 matched := matched st @ takeWhile (\<lambda>x. x \<noteq> c) s @ [c],
                 openGroup := None,
                 captures := captures st @ [takeWhile (\<lambda>x. x \<noteq> c) s] \<rparr>))"
  by (cases st; cases s) (auto simp add: greedy_until consume_def simp del: run.simps(4))

lemma run_port_group:
  "run [GroupOpen, One Digit, Greedy Digit, GroupClose, Eos] s st =
     (if s \<noteq> [] \<and> list_all (inClass Digit) s
      then Some (st\<lparr> atStart := False, matched := matched st @ s, openGroup := None,
                    captures := captures st @ [s] \<rparr>)
      else None)"
  by (cases st; cases s)
    (simp_all add: greedy_digits consume_def del: run.simps(4) inClass.simps)

lemma key_rebuild:
  assumes "dropWhile (\<lambda>x. x \<noteq> CHR ''/'') k \<noteq> []"
    and "dropWhile (\<lambda>x. x \<noteq> CHR '':'') (tl (dropWhile (\<lambda>x. x \<noteq> CHR ''/'') k)) \<noteq> []"
  shows "takeWhile (\<lambda>x. x \<noteq> CHR ''/'') k @ CHR ''/'' #
         takeWhile (\<lambda>x. x \<noteq> CHR '':'') (tl (dropWhile (\<lambda>x. x \<noteq> CHR ''/'') k)) @ CHR '':'' #
         tl (dropWhile (\<lambda>x. x \<noteq> CHR '':'') (tl (dropWhile (\<lambda>x. x \<noteq> CHR ''/'') k))) = k"
proof -
  let ?t1 = "dropWhile (\<lambda>x. x \<noteq> CHR ''/'') k"
  let ?t2 = "dropWhile (\<lambda>x. x \<noteq> CHR '':'') (tl ?t1)"
  have "k = takeWhile (\<lambda>x. x \<noteq> CHR ''/'') k @ ?t1" by simp
  also have "?t1 = CHR ''/'' # tl ?t1" using assms(1) by (rule dropWhile_starts)
  also have "tl ?t1 = takeWhile (\<lambda>x. x \<noteq> CHR '':'') (tl ?t1) @ ?t2" by simp
  also have "?t2 = CHR '':'' # tl ?t2" using assms(2) by (rule dropWhile_starts)
  finally show ?thesis by simp
qed

lemma keyParts_Some:
  "keyParts k = Some (a, b, ds) \<longleftrightarrow>
     CHR ''/'' \<in> set k
     \<and> CHR '':'' \<in> set (tl (dropWhile (\<lambda>x. x \<noteq> CHR ''/'') k))
     \<and> hd (tl (dropWhile (\<lambda>x. x \<noteq> CHR ''/'') k)) \<noteq> CHR '':''
     \<and> ds \<noteq> [] \<and> list_all (inClass Digit) ds
     \<and> a = takeWhile (\<lambda>x. x \<noteq> CHR ''/'') k
     \<and> b = takeWhile (\<lambda>x. x \<noteq> CHR '':'') (tl (dropWhile (\<lambda>x. x \<noteq> CHR ''/'') k))
     \<and> ds = tl (dropWhile (\<lambda>x. x \<noteq> CHR '':'') (tl (dropWhile (\<lambda>x. x \<noteq> CHR ''/'') k)))"
  by (cases "tl (dropWhile (\<lambda>x. x \<noteq> CHR ''/'') k)")
    (auto simp add: keyParts_def Let_def simp del: inClass.simps)

lemma keyParts_None:
  "keyParts k = None \<longleftrightarrow>
     \<not> (CHR ''/'' \<in> set k
        \<and> CHR '':'' \<in> set (tl (dropWhile (\<lambda>x. x \<noteq> CHR ''/'') k))
        \<and> hd (tl (dropWhile (\<lambda>x. x \<noteq> CHR ''/'') k)) \<noteq> CHR '':''
        \<and> tl (dropWhile (\<lambda>x. x \<noteq> CHR '':'') (tl (dropWhile (\<lambda>x. x \<noteq> CHR ''/'') k))) \<noteq> []
        \<and> list_all (inClass Digit)
             (tl (dropWhile (\<lambda>x. x \<noteq> CHR '':'') (tl (dropWhile (\<lambda>x. x \<noteq> CHR ''/'') k)))))"
  by (cases "tl (dropWhile (\<lambda>x. x \<noteq> CHR ''/'') k)")
    (auto simp add: keyParts_def Let_def simp del: inClass.simps)

lemma regexExec_forwardingKeyPattern:
  "regexExec forwardingKeyPattern k = map_option (\<lambda>(a, b, ds). [k, a, b, ds]) (keyParts k)"
proof (cases "keyParts k")
  case None
  show ?thesis
    using None [unfolded keyParts_None]
    by (auto simp add: None regexExec_def forwardingKeyPattern_def search_Bos run_namespace_group
        run_endpoint_group run_port_group
        simp del: run.simps inClass.simps)
next
  case (Some parts)
  obtain a b ds where parts: "parts = (a, b, ds)"
    by (cases parts) auto
  have t1: "dropWhile (\<lambda>x. x \<noteq> CHR ''/'') k \<noteq> []"
    and t2: "dropWhile (\<lambda>x. x \<noteq> CHR '':'') (tl (dropWhile (\<lambda>x. x \<noteq> CHR ''/'') k)) \<noteq> []"
    using Some unfolding parts keyParts_Some by auto
  show ?thesis
    using Some [unfolded parts keyParts_Some] key_rebuild [OF t1 t2]
    by (auto simp add: Some parts regexExec_def forwardingKeyPattern_def search_Bos
        run_namespace_group run_endpoint_group run_port_group
        simp del: run.simps inClass.simps)
qed


lemma split_at_first:
  assumes "c \<notin> set xs"
  shows "takeWhile (\<lambda>x. x \<noteq> c) (xs @ c # ys) = xs"
    and "dropWhile (\<lambda>x. x \<noteq> c) (xs @ c # ys) = c # ys"
  using assms by (induction xs) auto

lemma keyParts_wellformed:
  assumes "CHR ''/'' \<notin> set a" and "b \<noteq> []" and "CHR '':'' \<notin> set b"
    and "ds \<noteq> []" and "list_all (inClass Digit) ds"
  shows "keyParts (a @ ''/'' @ b @ '':'' @ ds) = Some (a, b, ds)"
  using assms
  by (cases b) (auto simp add: keyParts_Some split_at_first simp del: inClass.simps)

lemma keyParts_shape:
  assumes "keyParts k = Some (a, b, ds)"
  shows "k = a @ ''/'' @ b @ '':'' @ ds \<and> CHR ''/'' \<notin> set a \<and> b \<noteq> [] \<and> CHR '':'' \<notin> set b
       \<and> ds \<noteq> [] \<and> list_all (inClass Digit) ds"
proof -
  let ?t1 = "dropWhile (\<lambda>x. x \<noteq> CHR ''/'') k"
  let ?t2 = "dropWhile (\<lambda>x. x \<noteq> CHR '':'') (tl ?t1)"
  from assms have f: "CHR ''/'' \<in> set k" "CHR '':'' \<in> set (tl ?t1)" "hd (tl ?t1) \<noteq> CHR '':''"
    "ds \<noteq> []" "list_all (inClass Digit) ds" "a = takeWhile (\<lambda>x. x \<noteq> CHR ''/'') k"
    "b = takeWhile (\<lambda>x. x \<noteq> CHR '':'') (tl ?t1)" "ds = tl ?t2"
    unfolding keyParts_Some by blast+
  have t1: "?t1 \<noteq> []" using f(1) by auto
  have t2: "?t2 \<noteq> []" using f(2) by auto
  have k: "k = a @ ''/'' @ b @ '':'' @ ds"
    using key_rebuild [OF t1 t2] f(6,7,8) by simp
  have a: "CHR ''/'' \<notin> set a"
    unfolding f(6) using set_takeWhileD by fastforce
  have b: "CHR '':'' \<notin> set b"
    unfolding f(7) using set_takeWhileD by fastforce
  have "b \<noteq> []"
    unfolding f(7) using f(2,3) by (cases "tl ?t1") auto
  then show ?thesis using k a b f(4,5) by blast
qed

text \<open>A key the pattern accepts, followed by \<open>/\<close> and anything, is not accepted.\<close>

lemma keyParts_longer:
  assumes "keyParts k = Some (a, b, ds)"
  shows "keyParts (k @ ''/'' @ rest) = None"
proof -
  from keyParts_shape [OF assms] have k: "k = a @ ''/'' @ b @ '':'' @ ds"
    and a: "CHR ''/'' \<notin> set a" and b: "b \<noteq> []" "CHR '':'' \<notin> set b"
    by blast+
  obtain b0 bs where bb: "b = b0 # bs" using b(1) by (cases b) auto
  have "\<not> list_all (inClass Digit) (ds @ ''/'' @ rest)"
    by simp
  then show ?thesis
    unfolding keyParts_None k using a b
    by (simp add: split_at_first bb del: inClass.simps)
qed

subsection \<open>The iterator of the table and destroy\<close>

lemma iterYield_keyParts:
  "iterYield (k, server) =
     map_option (\<lambda>(a, b, ds). (k, a, parseInt b, server)) (keyParts k)"
  by (cases "keyParts k") (auto simp: iterYield_def regexExec_forwardingKeyPattern)

lemma forwardKey_wellformed:
  assumes "CHR ''/'' \<notin> set (case ns of None \<Rightarrow> ''default'' | Some n \<Rightarrow> if n = [] then ''default'' else n)"
    and "ep \<noteq> []" and "CHR '':'' \<notin> set ep" and "p < 10 ^ 21"
  shows "keyParts (forwardKey ns ep (Num (int p))) =
           Some (case ns of None \<Rightarrow> ''default'' | Some n \<Rightarrow> if n = [] then ''default'' else n,
                 ep, magnitudeToString p)"
  using keyParts_wellformed [OF assms(1,2,3), of "magnitudeToString p"]
    magnitudeToString_digits [OF assms(4)]
  by (simp add: forwardKey_def del: inClass.simps)

text \<open>
  A port from \<open>10^21\<close> on gives a key that the pattern does not accept: the iterator
  skips the entry of \<open>forwardPort('default', 'web', 1e21)\<close>.
\<close>

lemma exponent_key_skipped:
  "forwardKey (Some ''default'') ''web'' (Num 1000000000000000000000) = ''default/web:1e+21''
   \<and> iterYield (''default/web:1e+21'', server) = None"
proof -
  have "keyParts ''default/web:1e+21'' = None"
    by (simp add: keyParts_def)
  then show ?thesis
    using numberToString_examples by (simp add: forwardKey_def iterYield_keyParts)
qed

text \<open>The key that \<open>destroy\<close> asks to delete is not a key the pattern accepts.\<close>

lemma delete_key_not_accepted:
  assumes "keyParts k = Some (a, b, ds)"
  shows "keyParts (forwardKey (Some k) a port) = None"
proof -
  have "k \<noteq> []"
    using keyParts_shape [OF assms] by auto
  then have "forwardKey (Some k) a port = k @ ''/'' @ (a @ '':'' @ numberToString port)"
    by (simp add: forwardKey_def)
  then show ?thesis
    using keyParts_longer [OF assms] by simp
qed

lemma fmDelete_other_key:
  assumes "\<forall>entry \<in> set fm. keyParts (fst entry) \<noteq> None" and "keyParts k = Some (a, b, ds)"
  shows "fmDelete fm (Some k) a port = fm"
proof -
  have "fst entry \<noteq> forwardKey (Some k) a port" if "entry \<in> set fm" for entry
    using that assms(1) delete_key_not_accepted [OF assms(2), of port] by force
  then show ?thesis
    by (simp add: fmDelete_def filter_id_conv)
qed

lemma closeServer_fields [simp]:
  "servers (closeServer s c) = servers c"
  "shutdown (closeServer s c) = shutdown c"
  "sockets (closeServer s c) = (sockets c)(s \<mapsto> Closed)"
  "nextServer (closeServer s c) = nextServer c"
  by (simp_all add: closeServer_def)

lemma destroyLoop_accepted_keys:
  assumes "\<forall>entry \<in> set todo. keyParts (fst entry) \<noteq> None"
    and "\<forall>entry \<in> set (servers c). keyParts (fst entry) \<noteq> None"
  shows "servers (destroyLoop todo c) = servers c
       \<and> sockets (destroyLoop todo c) =
           (\<lambda>s. if s \<in> snd ` set todo then Some Closed else sockets c s)"
  using assms
proof (induction todo arbitrary: c)
  case Nil
  show ?case by simp
next
  case (Cons entry rest)
  obtain k server where entry: "entry = (k, server)"
    by (cases entry) auto
  from Cons.prems(1) obtain a b ds where parts: "keyParts k = Some (a, b, ds)"
    by (cases "keyParts k") (auto simp: entry)
  have rest: "\<forall>e \<in> set rest. keyParts (fst e) \<noteq> None"
    using Cons.prems(1) by simp
  have yield: "iterYield entry = Some (k, a, parseInt b, server)"
    by (simp add: entry iterYield_keyParts parts)
  have same: "c\<lparr> servers := fmDelete (servers c) (Some k) a (parseInt b) \<rparr> = c"
    using fmDelete_other_key [OF Cons.prems(2) parts] by simp
  have step: "destroyLoop (entry # rest) c = destroyLoop rest (closeServer server c)"
    using fmDelete_other_key [OF rest parts] by (simp add: yield same)
  have ih: "servers (destroyLoop rest (closeServer server c)) = servers (closeServer server c)
      \<and> sockets (destroyLoop rest (closeServer server c)) =
          (\<lambda>s. if s \<in> snd ` set rest then Some Closed else sockets (closeServer server c) s)"
    by (rule Cons.IH [OF rest]) (simp add: Cons.prems(2))
  show ?case
    unfolding step using ih by (auto simp: entry)
qed

lemma twoForwards_servers: "servers twoForwards = [(''a/1:5'', 0), (''a/1:5/a:1'', 1)]"
  by (simp add: twoForwards_def forwardPort_def createForwardingServer_def
      createForwardingServerBegin_def createForwardingServerEnd_def emitServiceChanged_def
      listServices_def servicesList_def address_def newKubeClient_def fmGet_def fmSet_def
      forwardKey_def magnitudeToString_def natToString.simps Let_def)

lemma twoForwards_sockets:
  "sockets twoForwards 0 = Some (Listening 50000) \<and> sockets twoForwards 1 = Some (Listening 50001)"
  by (simp add: twoForwards_def forwardPort_def createForwardingServer_def
      createForwardingServerBegin_def createForwardingServerEnd_def emitServiceChanged_def
      listServices_def servicesList_def address_def newKubeClient_def fmGet_def fmSet_def
      forwardKey_def magnitudeToString_def natToString.simps Let_def)

lemma negativePortForward_fields:
  "servers negativePortForward = [(''default/web:-1'', 0)]
   \<and> sockets negativePortForward 0 = Some (Listening 50000)"
  by (simp add: negativePortForward_def forwardPort_def createForwardingServer_def
      createForwardingServerBegin_def createForwardingServerEnd_def emitServiceChanged_def
      listServices_def servicesList_def address_def newKubeClient_def fmGet_def fmSet_def
      forwardKey_def magnitudeToString_def natToString.simps Let_def)

lemma keyParts_examples:
  "keyParts ''a/1:5'' = Some (''a'', ''1'', ''5'')
   \<and> keyParts ''a/1:5/a:1'' = None
   \<and> keyParts ''default/web:-1'' = None
   \<and> keyParts ''default/web:80'' = Some (''default'', ''web'', ''80'')"
  by (simp add: keyParts_def)

text \<open>
  C8, as the claim states it, fails for some tables. After \<open>forwardPort('a', '1', 5)\<close> and
  \<open>forwardPort('a', '1:5/a', 1)\<close> the iterator yields one entry, \<open>['a/1:5', 'a', 1]\<close>,
  and the \<open>delete\<close> of \<open>destroy\<close> builds the key \<open>a/1:5/a:1\<close>, which is the key of
  the second entry: that entry is gone after \<open>destroy\<close>, and its listener is still
  listening. After \<open>forwardPort('default', 'web', -1)\<close> the iterator yields nothing, and
  \<open>destroy\<close> closes no listener.
\<close>

theorem destroy_can_delete_and_can_skip:
  "servers twoForwards = [(''a/1:5'', 0), (''a/1:5/a:1'', 1)]
   \<and> fmIterate (servers twoForwards) = [(''a/1:5'', ''a'', Num 1, 0)]
   \<and> servers (destroy twoForwards) = [(''a/1:5'', 0)]
   \<and> sockets (destroy twoForwards) 1 = Some (Listening 50001)
   \<and> servers negativePortForward = [(''default/web:-1'', 0)]
   \<and> fmIterate (servers negativePortForward) = []
   \<and> sockets (destroy negativePortForward) 0 = Some (Listening 50000)"
proof -
  have key: "forwardKey (Some ''a/1:5'') ''a'' (Num 1) = ''a/1:5/a:1''"
    by (simp add: forwardKey_def magnitudeToString_def natToString.simps)
  have y1: "iterYield (''a/1:5'', 0) = Some (''a/1:5'', ''a'', Num 1, 0)"
    using keyParts_examples parseInt_examples by (simp add: iterYield_keyParts)
  have y2: "iterYield (''a/1:5/a:1'', 1) = None"
    using keyParts_examples by (simp add: iterYield_keyParts)
  have y3: "iterYield (''default/web:-1'', 0) = None"
    using keyParts_examples by (simp add: iterYield_keyParts)
  have two: "servers (destroy twoForwards) = [(''a/1:5'', 0)]
      \<and> sockets (destroy twoForwards) 1 = Some (Listening 50001)"
    using twoForwards_sockets
    by (simp add: destroy_def twoForwards_servers y1 fmDelete_def key)
  have neg: "sockets (destroy negativePortForward) 0 = Some (Listening 50000)"
    using negativePortForward_fields by (simp add: destroy_def y3)
  show ?thesis
    using two neg negativePortForward_fields y1 y2 y3
    by (simp add: twoForwards_servers fmIterate_def List.map_filter_simps)
qed

text \<open>
  C8, amended. For a forward registered with a namespace without \<open>/\<close>, an endpoint
  name that is not empty and has no \<open>:\<close>, and a port that is a whole number from 0 to
  below \<open>10^21\<close>, the iterator yields the whole key as the namespace, the namespace as
  the endpoint, and \<open>parseInt\<close> of the endpoint name as the port (an entry whose key the
  pattern does not accept is skipped); for an endpoint name that is a run of decimal
  digits of value at most \<open>2^53\<close>, that port is the value of the name. When every key
  of the table is accepted by the pattern, \<open>destroy\<close> closes the listener of every
  entry, no key it asks to delete is a key of the table, and the table after \<open>destroy\<close>
  is the table before it.
\<close>

theorem destroy_closes_listeners_and_keeps_entries:
  assumes "\<forall>entry \<in> set (servers c). iterYield entry \<noteq> None"
  shows "servers (destroy c) = servers c
       \<and> (\<forall>entry \<in> set (servers c). sockets (destroy c) (snd entry) = Some Closed)
       \<and> (\<forall>entry \<in> set (servers c). \<forall>namespace endpoint port server.
             iterYield entry = Some (namespace, endpoint, port, server) \<longrightarrow>
             namespace = fst entry \<and> server = snd entry
             \<and> fmGet (servers c) (Some namespace) endpoint port = None)
       \<and> (\<forall>ns ep p server.
             CHR ''/'' \<notin> set (case ns of None \<Rightarrow> ''default''
                                | Some n \<Rightarrow> if n = [] then ''default'' else n)
             \<and> ep \<noteq> [] \<and> CHR '':'' \<notin> set ep \<and> p < 10 ^ 21 \<longrightarrow>
             iterYield (forwardKey ns ep (Num (int p)), server) =
               Some (forwardKey ns ep (Num (int p)),
                     case ns of None \<Rightarrow> ''default'' | Some n \<Rightarrow> if n = [] then ''default'' else n,
                     parseInt ep, server))
       \<and> (\<forall>ep. ep \<noteq> [] \<and> list_all (inClass Digit) ep \<and> radixValue 10 ep \<le> 2 ^ 53 \<longrightarrow>
             parseInt ep = Num (int (radixValue 10 ep)))"
proof -
  have accepted: "\<forall>entry \<in> set (servers c). keyParts (fst entry) \<noteq> None"
  proof
    fix entry assume "entry \<in> set (servers c)"
    then have "iterYield entry \<noteq> None"
      using assms by blast
    then show "keyParts (fst entry) \<noteq> None"
      by (cases entry) (auto simp: iterYield_keyParts)
  qed
  have accepted': "\<forall>entry \<in> set (servers (c\<lparr> shutdown := True \<rparr>)). keyParts (fst entry) \<noteq> None"
    using accepted by simp
  from destroyLoop_accepted_keys [OF accepted accepted']
  have loop: "servers (destroy c) = servers c"
    and socks: "sockets (destroy c) = (\<lambda>s. if s \<in> snd ` set (servers c) then Some Closed else sockets c s)"
    by (simp_all add: destroy_def cong: if_cong)
  have closed: "\<forall>entry \<in> set (servers c). sockets (destroy c) (snd entry) = Some Closed"
    by (simp add: socks)
  have unmatched: "namespace = fst entry \<and> server = snd entry
      \<and> fmGet (servers c) (Some namespace) endpoint port = None"
    if "entry \<in> set (servers c)" and "iterYield entry = Some (namespace, endpoint, port, server)"
    for entry namespace endpoint port server
  proof -
    from that(2) obtain a b ds where parts: "keyParts (fst entry) = Some (a, b, ds)"
      and eqs: "namespace = fst entry" "endpoint = a" "server = snd entry"
      using iterYield_keyParts [of "fst entry" "snd entry"]
      by (cases "keyParts (fst entry)") auto
    have none: "keyParts (forwardKey (Some (fst entry)) a port) = None"
      by (rule delete_key_not_accepted [OF parts])
    have "map_of (servers c) (forwardKey (Some (fst entry)) a port) = None"
    proof (rule ccontr)
      assume "map_of (servers c) (forwardKey (Some (fst entry)) a port) \<noteq> None"
      then obtain s where "map_of (servers c) (forwardKey (Some (fst entry)) a port) = Some s"
        by auto
      then have "(forwardKey (Some (fst entry)) a port, s) \<in> set (servers c)"
        by (rule map_of_SomeD)
      then show False
        using accepted none by force
    qed
    then show ?thesis
      using eqs by (simp add: fmGet_def)
  qed
  have yields: "iterYield (forwardKey ns ep (Num (int p)), server) =
      Some (forwardKey ns ep (Num (int p)),
            case ns of None \<Rightarrow> ''default'' | Some n \<Rightarrow> if n = [] then ''default'' else n,
            parseInt ep, server)"
    if "CHR ''/'' \<notin> set (case ns of None \<Rightarrow> ''default''
                         | Some n \<Rightarrow> if n = [] then ''default'' else n)"
      and "ep \<noteq> []" and "CHR '':'' \<notin> set ep" and "p < 10 ^ 21"
    for ns ep p server
    using forwardKey_wellformed [OF that] by (simp add: iterYield_keyParts)
  have digits: "parseInt ep = Num (int (radixValue 10 ep))"
    if "ep \<noteq> []" and "list_all (inClass Digit) ep" and "radixValue 10 ep \<le> 2 ^ 53" for ep
    using parseInt_digits [OF that(1,2)] toNumber_small [OF that(3)] by simp
  show ?thesis
    using loop closed unmatched yields digits by blast
qed

theorem destroy_closes_listeners_and_keeps_entries_witness:
  "servers webForward = [(''default/web:80'', 0)]
   \<and> iterYield (''default/web:80'', 0) = Some (''default/web:80'', ''default'', NaN, 0)
   \<and> servers (destroy webForward) = [(''default/web:80'', 0)]
   \<and> sockets webForward 0 = Some (Listening 50000)
   \<and> sockets (destroy webForward) 0 = Some Closed
   \<and> fmGet (servers webForward) (Some ''default/web:80'') ''default'' NaN = None
   \<and> iterYield (forwardKey (Some ''default'') ''80'' (Num 8080), 1) =
       Some (''default/80:8080'', ''default'', Num 80, 1)"
proof -
  have fields: "servers webForward = [(''default/web:80'', 0)]
      \<and> sockets webForward 0 = Some (Listening 50000)"
    by (simp add: webForward_def forwardPort_def createForwardingServer_def
        createForwardingServerBegin_def createForwardingServerEnd_def emitServiceChanged_def
        listServices_def servicesList_def serviceEntry_def address_def newKubeClient_def
        webService_def fmGet_def fmSet_def forwardKey_def magnitudeToString_def
        natToString.simps Let_def)
  have y: "iterYield (''default/web:80'', 0) = Some (''default/web:80'', ''default'', NaN, 0)"
    using keyParts_examples parseInt_examples by (simp add: iterYield_keyParts)
  have all: "\<forall>entry \<in> set (servers webForward). iterYield entry \<noteq> None"
    using fields y by simp
  note inst = destroy_closes_listeners_and_keeps_entries [OF all]
  have key: "forwardKey (Some ''default'') ''80'' (Num 8080) = ''default/80:8080''"
    by (simp add: forwardKey_def magnitudeToString_def natToString.simps)
  have eighty: "radixValue 10 ''80'' = 80"
    by (simp add: radixValue_def digitValue_def)
  have yielded: "iterYield (forwardKey (Some ''default'') ''80'' (Num (int 8080)), 1) =
      Some (forwardKey (Some ''default'') ''80'' (Num (int 8080)), ''default'', parseInt ''80'', 1)"
    using inst [THEN conjunct2, THEN conjunct2, THEN conjunct2, THEN conjunct1, rule_format,
               of "Some ''default''" "''80''" 8080 1]
    by simp
  have port: "parseInt ''80'' = Num 80"
    using inst [THEN conjunct2, THEN conjunct2, THEN conjunct2, THEN conjunct2, rule_format,
               of "''80''"] eighty
    by simp
  show ?thesis
    using fields y yielded port key
      inst [THEN conjunct1] inst [THEN conjunct2, THEN conjunct1]
      inst [THEN conjunct2, THEN conjunct2, THEN conjunct1]
    by (simp add: fmGet_def)
qed

end
